theory Spec2Isabelle
  imports Main
begin

section \<open>Data model (JupyterProtocol.ts, KernelManager.ts)\<close>

text \<open>
  Strings are sequences of bytes (the UTF-8 encoding of the JavaScript string), so a
  \<open>Buffer\<close> and a string are the same type, \<open>Buffer.from(s)\<close> and
  \<open>buf.toString()\<close> are the identity. The only strings the code compares a decoded
  frame with are ASCII (the delimiter, a hexadecimal digest, the empty string), and a
  frame decodes to an ASCII string exactly when its bytes are that string.

  Field names are those of the TypeScript interfaces. Where two interfaces share a
  field name, or a name is a keyword of Isabelle, the later one carries a prefix
  (\<open>reply_\<close>, \<open>display_\<close>, \<open>stream_\<close>, \<open>out_\<close>, \<open>info_\<close>, \<open>language_\<close>,
  \<open>protocol_\<close>); the string literals of a union type are constructors, prefixed
  likewise where two unions share a literal.
\<close>

type_synonym Buffer = string

text \<open>A value of type \<open>unknown\<close>: what \<open>JSON.parse\<close> can return. Numbers are integers.\<close>

datatype json =
    JNull
  | JBool bool
  | JNumber int
  | JString string
  | JArray "json list"
  | JObject "(string \<times> json) list"

record JupyterHeader =
  msg_id :: string
  msg_type :: string
  username :: string
  session :: string
  date :: string
  version :: string

text \<open>
  \<open>JupyterMessage<T>\<close>. \<open>parent_header\<close> is a header or the empty object \<open>{}\<close>
  (\<open>None\<close>); \<open>buffers\<close> is optional.
\<close>

record 'c JupyterMessage =
  header :: JupyterHeader
  parent_header :: "JupyterHeader option"
  metadata :: "(string \<times> json) list"
  content :: 'c
  buffers :: "Buffer list option"

record ExecuteRequestContent =
  code :: string
  silent :: bool
  store_history :: bool
  user_expressions :: "(string \<times> string) list"
  allow_stdin :: bool
  stop_on_error :: bool

datatype ReplyStatus = reply_ok | reply_error | reply_abort

record ExecuteReplyContent =
  reply_status :: ReplyStatus
  execution_count :: int
  reply_user_expressions :: "(string \<times> json) list option"
  payload :: "json list option"
  reply_ename :: "string option"
  reply_evalue :: "string option"
  reply_traceback :: "string list option"

datatype StreamName = stream_stdout | stream_stderr

record StreamContent =
  name :: StreamName
  stream_text :: string

record DisplayDataContent =
  data :: "(string \<times> string) list"
  display_metadata :: "(string \<times> json) list"
  transient :: "string option option"

record ErrorContent =
  ename :: string
  evalue :: string
  traceback :: "string list"

datatype ExecutionState = exec_busy | exec_idle | exec_starting

record StatusContent =
  execution_state :: ExecutionState

record LanguageInfo =
  language_name :: string
  language_version :: string
  mimetype :: string
  file_extension :: string

record KernelInfoReplyContent =
  protocol_version :: string
  implementation :: string
  implementation_version :: string
  language_info :: LanguageInfo
  banner :: string
  info_status :: unit

text \<open>
  The content of a message is \<open>unknown\<close> until a type guard narrows it to one of the
  content interfaces; \<open>Content\<close> is the union of the interfaces the file declares and
  of the two request payloads it builds inline.
\<close>

datatype Content =
    Stream StreamContent
  | DisplayData DisplayDataContent
  | ErrorC ErrorContent
  | Status StatusContent
  | ExecuteReply ExecuteReplyContent
  | KernelInfoReply KernelInfoReplyContent
  | ExecuteRequest ExecuteRequestContent
  | ShutdownRequest bool
  | Empty

text \<open>What a call can throw: an \<open>Error\<close> with its message, or an error of the runtime.\<close>

datatype exn =
    Error string
  | SyntaxError
  | TypeError

section \<open>The platform: JSON and HMAC\<close>

text \<open>
  \<open>JSON.stringify\<close>, \<open>JSON.parse\<close> and \<open>crypto.createHmac\<close> belong to the platform,
  not to the repository: they are parameters. \<open>parse_*\<close> is \<open>JSON.parse\<close> followed by
  the cast the code applies to its result, \<open>None\<close> when it throws a SyntaxError.
  \<open>pretty s\<close> is \<open>JSON.stringify(JSON.parse(s), null, 2)\<close>.
\<close>

record 'c JSON =
  stringify_header :: "JupyterHeader \<Rightarrow> string"
  stringify_parent :: "JupyterHeader option \<Rightarrow> string"
  stringify_metadata :: "(string \<times> json) list \<Rightarrow> string"
  stringify_content :: "'c \<Rightarrow> string"
  parse_header :: "string \<Rightarrow> JupyterHeader option"
  parse_parent :: "string \<Rightarrow> JupyterHeader option option"
  parse_metadata :: "string \<Rightarrow> (string \<times> json) list option"
  parse_content :: "string \<Rightarrow> 'c option"
  pretty :: "string \<Rightarrow> string option"

text \<open>\<open>hmac key parts\<close>: the hexadecimal SHA-256 HMAC of the parts, updated in order.\<close>

type_synonym Hmac = "string \<Rightarrow> Buffer list \<Rightarrow> string"

section \<open>JupyterProtocol\<close>

record JupyterProtocol =
  sessionId :: string
  protocol_username :: string
  key :: string

text \<open>The constructor; the fresh \<open>uuidv4()\<close> is an argument.\<close>

definition new_JupyterProtocol :: "string \<Rightarrow> string \<Rightarrow> JupyterProtocol" where
  "new_JupyterProtocol uuid k =
     \<lparr>sessionId = uuid, protocol_username = ''promptbook'', key = k\<rparr>"

text \<open>\<open>createHeader\<close>: the fresh identifier and the current time are arguments.\<close>

definition createHeader :: "JupyterProtocol \<Rightarrow> string \<Rightarrow> string \<Rightarrow> string \<Rightarrow> JupyterHeader" where
  "createHeader p uuid now msgType =
     \<lparr>msg_id = uuid, msg_type = msgType, username = protocol_username p,
      session = sessionId p, date = now, version = ''5.3''\<rparr>"

definition createMessage ::
  "JupyterProtocol \<Rightarrow> string \<Rightarrow> string \<Rightarrow> string \<Rightarrow> 'c \<Rightarrow> JupyterHeader option \<Rightarrow> 'c JupyterMessage"
where
  "createMessage p uuid now msgType c parentHeader =
     \<lparr>header = createHeader p uuid now msgType, parent_header = parentHeader,
      metadata = [], content = c, buffers = None\<rparr>"

definition createExecuteRequest ::
  "JupyterProtocol \<Rightarrow> string \<Rightarrow> string \<Rightarrow> string \<Rightarrow> bool \<Rightarrow> Content JupyterMessage"
where
  "createExecuteRequest p uuid now c sil =
     createMessage p uuid now ''execute_request''
       (ExecuteRequest \<lparr>code = c, silent = sil, store_history = (\<not> sil),
          user_expressions = [], allow_stdin = False, stop_on_error = True\<rparr>) None"

definition createKernelInfoRequest ::
  "JupyterProtocol \<Rightarrow> string \<Rightarrow> string \<Rightarrow> Content JupyterMessage"
where
  "createKernelInfoRequest p uuid now = createMessage p uuid now ''kernel_info_request'' Empty None"

definition createShutdownRequest ::
  "JupyterProtocol \<Rightarrow> string \<Rightarrow> string \<Rightarrow> bool \<Rightarrow> Content JupyterMessage"
where
  "createShutdownRequest p uuid now restart =
     createMessage p uuid now ''shutdown_request'' (ShutdownRequest restart) None"

definition createInterruptRequest ::
  "JupyterProtocol \<Rightarrow> string \<Rightarrow> string \<Rightarrow> Content JupyterMessage"
where
  "createInterruptRequest p uuid now = createMessage p uuid now ''interrupt_request'' Empty None"

definition sign :: "Hmac \<Rightarrow> JupyterProtocol \<Rightarrow> Buffer list \<Rightarrow> string" where
  "sign hmac p parts = (if key p = [] then [] else hmac (key p) parts)"

definition delimiter :: string where
  "delimiter = ''<IDS|MSG>''"

definition serializeMessage ::
  "'c JSON \<Rightarrow> Hmac \<Rightarrow> JupyterProtocol \<Rightarrow> 'c JupyterMessage \<Rightarrow> Buffer list"
where
  "serializeMessage J hmac p msg =
     (let header' = stringify_header J (header msg);
          parentHeader = stringify_parent J (parent_header msg);
          metadata' = stringify_metadata J (metadata msg);
          content' = stringify_content J (content msg);
          signature = sign hmac p [header', parentHeader, metadata', content']
      in [delimiter, signature, header', parentHeader, metadata', content'])"

text \<open>
  The loop of \<open>parseMessage\<close> that finds the delimiter: the index of the first frame equal
  to it, counted from \<open>i\<close>, or \<open>None\<close> (the \<open>-1\<close> of the source).
\<close>

fun findDelimiter :: "nat \<Rightarrow> Buffer list \<Rightarrow> nat option" where
  "findDelimiter i [] = None"
| "findDelimiter i (f # fs) = (if f = delimiter then Some i else findDelimiter (Suc i) fs)"

text \<open>
  \<open>parseMessage\<close> returns the warnings it wrote to the console and its outcome: \<open>Inl\<close> an
  exception of \<open>JSON.parse\<close>, \<open>Inr None\<close> for \<open>null\<close>, \<open>Inr (Some msg)\<close> for a message.
  The four parts are parsed before the signature is looked at.
\<close>

definition parseMessage ::
  "'c JSON \<Rightarrow> Hmac \<Rightarrow> JupyterProtocol \<Rightarrow> Buffer list \<Rightarrow> string list \<times> (exn + 'c JupyterMessage option)"
where
  "parseMessage J hmac p frames =
     (case findDelimiter 0 frames of
        None \<Rightarrow> ([], Inr None)
      | Some delimiterIndex \<Rightarrow>
          if length frames < delimiterIndex + 6 then ([], Inr None)
          else
            let signature = frames ! (delimiterIndex + 1) in
            (case parse_header J (frames ! (delimiterIndex + 2)) of
               None \<Rightarrow> ([], Inl SyntaxError)
             | Some header' \<Rightarrow>
            (case parse_parent J (frames ! (delimiterIndex + 3)) of
               None \<Rightarrow> ([], Inl SyntaxError)
             | Some parentHeader \<Rightarrow>
            (case parse_metadata J (frames ! (delimiterIndex + 4)) of
               None \<Rightarrow> ([], Inl SyntaxError)
             | Some metadata' \<Rightarrow>
            (case parse_content J (frames ! (delimiterIndex + 5)) of
               None \<Rightarrow> ([], Inl SyntaxError)
             | Some content' \<Rightarrow>
                 (if key p \<noteq> [] \<and> signature \<noteq> []
                     \<and> signature \<noteq> sign hmac p
                          [frames ! (delimiterIndex + 2), frames ! (delimiterIndex + 3),
                           frames ! (delimiterIndex + 4), frames ! (delimiterIndex + 5)]
                  then [''Message signature mismatch''] else [],
                  Inr (Some \<lparr>header = header', parent_header = parentHeader,
                              metadata = metadata', content = content',
                              buffers = Some (drop (delimiterIndex + 6) frames)\<rparr>)))))))"

definition isExecuteReply :: "'c JupyterMessage \<Rightarrow> bool" where
  "isExecuteReply msg = (msg_type (header msg) = ''execute_reply'')"

definition isStream :: "'c JupyterMessage \<Rightarrow> bool" where
  "isStream msg = (msg_type (header msg) = ''stream'')"

definition isDisplayData :: "'c JupyterMessage \<Rightarrow> bool" where
  "isDisplayData msg =
     (msg_type (header msg) = ''display_data'' \<or> msg_type (header msg) = ''execute_result'')"

definition isError :: "'c JupyterMessage \<Rightarrow> bool" where
  "isError msg = (msg_type (header msg) = ''error'')"

definition isStatus :: "'c JupyterMessage \<Rightarrow> bool" where
  "isStatus msg = (msg_type (header msg) = ''status'')"

definition isKernelInfoReply :: "'c JupyterMessage \<Rightarrow> bool" where
  "isKernelInfoReply msg = (msg_type (header msg) = ''kernel_info_reply'')"

section \<open>KernelManager: state\<close>

datatype KernelState = idle | busy | starting | dead | disconnected

datatype OutputType = stdout | stderr | result | display | error | status

record KernelOutput =
  out_type :: OutputType
  out_content :: string
  mimeType :: "string option"
  out_executionCount :: "int option"

record ConnectionInfo =
  shell_port :: nat
  iopub_port :: nat
  stdin_port :: nat
  control_port :: nat
  hb_port :: nat
  ip :: string
  info_key :: string
  transport :: string
  signature_scheme :: string
  kernel_name :: string

text \<open>A child process: its \<open>pid\<close> is undefined when the spawn failed.\<close>

record ChildProcess =
  pid :: "nat option"

datatype Channel = shell | iopub | control

text \<open>A ZeroMQ socket: its routing id (a Dealer has one) and where it connects to.\<close>

record Socket =
  routingId :: "string option"
  baseUrl :: string
  port :: nat

text \<open>
  What \<open>execute\<close> allocates for one call: the promise it waits for (\<open>resolved\<close> once
  its \<open>resolve\<close> was called) and the \<open>outputs\<close> array. The entry of
  \<open>pendingExecutions\<close> and the caller share both, so they live on a heap and the map
  holds the address.
\<close>

record Execution =
  resolved :: bool
  outputs :: "KernelOutput list"

text \<open>What the manager does to the outside, in order.\<close>

datatype Effect =
    Emit_stateChange KernelState
  | Emit_output KernelOutput "string option"
  | Emit_error exn
  | Emit_kernelInfo Content
  | Spawn string "string list"
  | Send Channel "Buffer list"
  | Close Channel
  | Sigint nat
  | Kill
  | Unlink string
  | Warn string

record KernelManager =
  process :: "ChildProcess option"
  protocol :: "JupyterProtocol option"
  connectionFile :: "string option"
  connectionInfo :: "ConnectionInfo option"
  shellSocket :: "Socket option"
  iopubSocket :: "Socket option"
  controlSocket :: "Socket option"
  state :: KernelState
  executionCount :: int
  pythonPath :: string
  pendingExecutions :: "string \<rightharpoonup> nat"
  heap :: "Execution list"
  trace :: "Effect list"

definition new_KernelManager :: "string \<Rightarrow> KernelManager" where
  "new_KernelManager path =
     \<lparr>process = None, protocol = None, connectionFile = None, connectionInfo = None,
      shellSocket = None, iopubSocket = None, controlSocket = None,
      state = disconnected, executionCount = 0, pythonPath = path,
      pendingExecutions = Map.empty, heap = [], trace = []\<rparr>"

definition emit :: "Effect \<Rightarrow> KernelManager \<Rightarrow> KernelManager" where
  "emit e s = s\<lparr>trace := trace s @ [e]\<rparr>"

definition getState :: "KernelManager \<Rightarrow> KernelState" where
  "getState s = state s"

definition getExecutionCount :: "KernelManager \<Rightarrow> int" where
  "getExecutionCount s = executionCount s"

definition setState :: "KernelState \<Rightarrow> KernelManager \<Rightarrow> KernelManager" where
  "setState newState s =
     (if state s \<noteq> newState then emit (Emit_stateChange newState) (s\<lparr>state := newState\<rparr>)
      else s)"

section \<open>KernelManager: shutdown\<close>

definition cleanup :: "KernelManager \<Rightarrow> KernelManager" where
  "cleanup s =
     (let s1 = (case connectionFile s of
                  Some f \<Rightarrow> (emit (Unlink f) s)\<lparr>connectionFile := None\<rparr>
                | None \<Rightarrow> s)
      in s1\<lparr>connectionInfo := None, protocol := None, pendingExecutions := Map.empty\<rparr>)"

definition shutdown :: "KernelManager \<Rightarrow> KernelManager" where
  "shutdown s =
     (let s1 = setState dead s;
          s2 = (if shellSocket s1 \<noteq> None then (emit (Close shell) s1)\<lparr>shellSocket := None\<rparr> else s1);
          s3 = (if iopubSocket s2 \<noteq> None then (emit (Close iopub) s2)\<lparr>iopubSocket := None\<rparr> else s2);
          s4 = (if controlSocket s3 \<noteq> None then (emit (Close control) s3)\<lparr>controlSocket := None\<rparr> else s3);
          s5 = (if process s4 \<noteq> None then (emit Kill s4)\<lparr>process := None\<rparr> else s4)
      in cleanup s5)"

text \<open>The handlers \<open>start\<close> registers on the child process.\<close>

definition on_exit :: "KernelManager \<Rightarrow> KernelManager" where
  "on_exit s = cleanup (setState dead s)"

definition on_error :: "exn \<Rightarrow> KernelManager \<Rightarrow> KernelManager" where
  "on_error err s = emit (Emit_error err) (setState dead s)"

section \<open>KernelManager: the iopub listener\<close>

text \<open>\<open>parentMsgId && this.pendingExecutions.has(parentMsgId)\<close>, with the entry found.\<close>

definition pendingFor :: "string option \<Rightarrow> KernelManager \<Rightarrow> nat option" where
  "pendingFor parentMsgId s =
     (case parentMsgId of
        None \<Rightarrow> None
      | Some i \<Rightarrow> if i = [] then None else pendingExecutions s i)"

definition emitOutput :: "string option \<Rightarrow> KernelOutput \<Rightarrow> KernelManager \<Rightarrow> KernelManager" where
  "emitOutput parentMsgId output s =
     (let s1 = (case pendingFor parentMsgId s of
                  Some a \<Rightarrow> s\<lparr>heap := (heap s)[a := (heap s ! a)\<lparr>outputs := outputs (heap s ! a) @ [output]\<rparr>]\<rparr>
                | None \<Rightarrow> s)
      in emit (Emit_output output parentMsgId) s1)"

text \<open>The body of the \<open>idle\<close> branch after \<open>setState\<close>: resolve and delete the entry.\<close>

definition completePending :: "string option \<Rightarrow> KernelManager \<Rightarrow> KernelManager" where
  "completePending parentMsgId s =
     (case parentMsgId of
        None \<Rightarrow> s
      | Some i \<Rightarrow>
          (case pendingFor parentMsgId s of
             Some a \<Rightarrow> s\<lparr>heap := (heap s)[a := (heap s ! a)\<lparr>resolved := True\<rparr>],
                        pendingExecutions := (pendingExecutions s)(i := None)\<rparr>
           | None \<Rightarrow> s))"

text \<open>\<open>a[k]\<close> as a condition: the key is there and its string is not empty.\<close>

definition truthy :: "string option \<Rightarrow> bool" where
  "truthy v = (case v of None \<Rightarrow> False | Some x \<Rightarrow> x \<noteq> [])"

fun join :: "string \<Rightarrow> string list \<Rightarrow> string" where
  "join sep [] = []"
| "join sep [x] = x"
| "join sep (x # y # ys) = x @ sep @ join sep (y # ys)"

definition mkOutput :: "OutputType \<Rightarrow> string \<Rightarrow> string option \<Rightarrow> KernelOutput" where
  "mkOutput t c m = \<lparr>out_type = t, out_content = c, mimeType = m, out_executionCount = None\<rparr>"

text \<open>
  The branch of \<open>handleIopubMessage\<close> for display data: the output it passes to
  \<open>emitOutput\<close>, \<open>Inr None\<close> when it emits nothing, \<open>Inl\<close> when \<open>JSON.parse\<close> throws.
\<close>

definition displayOutput :: "'c JSON \<Rightarrow> (string \<times> string) list \<Rightarrow> exn + KernelOutput option" where
  "displayOutput J d =
     (if truthy (map_of d ''image/png'') then
        Inr (Some (mkOutput display (the (map_of d ''image/png'')) (Some ''image/png'')))
      else if truthy (map_of d ''image/jpeg'') then
        Inr (Some (mkOutput display (the (map_of d ''image/jpeg'')) (Some ''image/jpeg'')))
      else if truthy (map_of d ''text/html'') then
        Inr (Some (mkOutput display (the (map_of d ''text/html'')) (Some ''text/html'')))
      else if truthy (map_of d ''application/json'') then
        (case pretty J (the (map_of d ''application/json'')) of
           None \<Rightarrow> Inl SyntaxError
         | Some c \<Rightarrow> Inr (Some (mkOutput display c (Some ''application/json''))))
      else if truthy (map_of d ''text/plain'') then
        Inr (Some (mkOutput result (the (map_of d ''text/plain'')) None))
      else Inr None)"

text \<open>
  \<open>handleIopubMessage\<close>. A type guard narrows the content by the message type alone;
  a message whose content has not the shape its type announces is no value of the
  narrowed type, and the model gives it no behaviour (\<open>None\<close>). \<open>Some (Inl e)\<close> is a
  thrown exception: \<open>this.protocol!\<close> on \<open>null\<close>, or \<open>JSON.parse\<close>.
\<close>

definition handleIopubMessage ::
  "Content JSON \<Rightarrow> Content JupyterMessage \<Rightarrow> KernelManager \<Rightarrow> (exn + KernelManager) option"
where
  "handleIopubMessage J msg s =
     (let parentMsgId = map_option msg_id (parent_header msg) in
      if protocol s = None then Some (Inl TypeError)
      else if isStatus msg then
        (case content msg of
           Status c \<Rightarrow>
             if execution_state c = exec_busy then Some (Inr (setState busy s))
             else if execution_state c = exec_idle then
               Some (Inr (completePending parentMsgId (setState idle s)))
             else Some (Inr s)
         | _ \<Rightarrow> None)
      else if isStream msg then
        (case content msg of
           Stream c \<Rightarrow>
             Some (Inr (emitOutput parentMsgId
               (mkOutput (if name c = stream_stdout then stdout else stderr) (stream_text c) None) s))
         | _ \<Rightarrow> None)
      else if isDisplayData msg then
        (case content msg of
           DisplayData c \<Rightarrow>
             (case displayOutput J (data c) of
                Inl e \<Rightarrow> Some (Inl e)
              | Inr None \<Rightarrow> Some (Inr s)
              | Inr (Some output) \<Rightarrow> Some (Inr (emitOutput parentMsgId output s)))
         | _ \<Rightarrow> None)
      else if isError msg then
        (case content msg of
           ErrorC c \<Rightarrow>
             Some (Inr (emitOutput parentMsgId (mkOutput error (join [CHR 0x0A] (traceback c)) None) s))
         | _ \<Rightarrow> None)
      else if isExecuteReply msg then
        (case content msg of
           ExecuteReply c \<Rightarrow>
             Some (Inr (if execution_count c \<noteq> 0 then s\<lparr>executionCount := execution_count c\<rparr> else s))
         | _ \<Rightarrow> None)
      else Some (Inr s))"

definition warn :: "string list \<Rightarrow> KernelManager \<Rightarrow> KernelManager" where
  "warn ws s = s\<lparr>trace := trace s @ map Warn ws\<rparr>"

text \<open>The \<open>catch\<close> of the listener.\<close>

definition listenerCatch :: "exn \<Rightarrow> KernelManager \<Rightarrow> KernelManager" where
  "listenerCatch err s =
     (if state s \<noteq> dead \<and> state s \<noteq> disconnected then emit (Emit_error err) s else s)"

text \<open>
  One turn of the loop of \<open>startIopubListener\<close>, for the frames the socket delivers.
\<close>

definition onIopubFrames ::
  "Content JSON \<Rightarrow> Hmac \<Rightarrow> Buffer list \<Rightarrow> KernelManager \<Rightarrow> KernelManager option"
where
  "onIopubFrames J hmac frames s =
     (case protocol s of
        None \<Rightarrow> Some (listenerCatch TypeError s)
      | Some p \<Rightarrow>
          (case parseMessage J hmac p frames of
             (ws, Inl e) \<Rightarrow> Some (listenerCatch e (warn ws s))
           | (ws, Inr None) \<Rightarrow> Some (warn ws s)
           | (ws, Inr (Some msg)) \<Rightarrow>
               (case handleIopubMessage J msg (warn ws s) of
                  None \<Rightarrow> None
                | Some (Inl e) \<Rightarrow> Some (listenerCatch e (warn ws s))
                | Some (Inr s') \<Rightarrow> Some s')))"

section \<open>KernelManager: start\<close>

text \<open>
  An \<open>async\<close> method runs in segments, one between two \<open>await\<close>s; what the awaited
  call delivers (the spawned process, the connection file's content, a reply, a fresh
  identifier, the time) is an argument of the segment that continues with it.

  \<open>start_1\<close>: from the entry of \<open>start\<close> to the wait for the connection file (the
  \<open>shutdown\<close> of a running kernel included).
\<close>

definition start_1 :: "string \<Rightarrow> ChildProcess \<Rightarrow> KernelManager \<Rightarrow> KernelManager" where
  "start_1 file proc s =
     (let s0 = (if process s \<noteq> None then shutdown s else s);
          s1 = setState starting s0;
          s2 = s1\<lparr>connectionFile := Some file\<rparr>
      in (emit (Spawn (pythonPath s2) [''-m'', ''ipykernel_launcher'', ''-f'', file]) s2)
           \<lparr>process := Some proc\<rparr>)"

definition connectSockets :: "string \<Rightarrow> string \<Rightarrow> KernelManager \<Rightarrow> exn + KernelManager" where
  "connectSockets now1 now2 s =
     (case connectionInfo s of
        None \<Rightarrow> Inl (Error ''No connection info'')
      | Some info \<Rightarrow>
          (let base = transport info @ ''://'' @ ip info in
           Inr (s\<lparr>shellSocket :=
                     Some \<lparr>routingId = Some (''shell-'' @ now1), baseUrl = base, port = shell_port info\<rparr>,
                   iopubSocket :=
                     Some \<lparr>routingId = None, baseUrl = base, port = iopub_port info\<rparr>,
                   controlSocket :=
                     Some \<lparr>routingId = Some (''control-'' @ now2), baseUrl = base, port = control_port info\<rparr>\<rparr>)))"

text \<open>\<open>start_2\<close>: the connection file was read and parsed to \<open>info\<close>; up to the sockets.\<close>

definition start_2 ::
  "ConnectionInfo \<Rightarrow> string \<Rightarrow> string \<Rightarrow> string \<Rightarrow> KernelManager \<Rightarrow> exn + KernelManager"
where
  "start_2 info uuid now1 now2 s =
     connectSockets now1 now2
       (s\<lparr>connectionInfo := Some info, protocol := Some (new_JupyterProtocol uuid (info_key info))\<rparr>)"

text \<open>
  \<open>requestKernelInfo\<close> up to its \<open>send\<close>; \<open>None\<close> when it returns at once for want
  of a socket or a protocol.
\<close>

definition requestKernelInfo_send ::
  "Content JSON \<Rightarrow> Hmac \<Rightarrow> string \<Rightarrow> string \<Rightarrow> KernelManager \<Rightarrow> KernelManager option"
where
  "requestKernelInfo_send J hmac uuid now s =
     (case (shellSocket s, protocol s) of
        (Some _, Some p) \<Rightarrow>
          Some (emit (Send shell (serializeMessage J hmac p (createKernelInfoRequest p uuid now))) s)
      | _ \<Rightarrow> None)"

text \<open>The rest of \<open>requestKernelInfo\<close>, once the reply is there.\<close>

definition requestKernelInfo_reply ::
  "Content JSON \<Rightarrow> Hmac \<Rightarrow> Buffer list \<Rightarrow> KernelManager \<Rightarrow> exn + KernelManager"
where
  "requestKernelInfo_reply J hmac reply s =
     (if shellSocket s = None then Inl TypeError
      else case protocol s of
        None \<Rightarrow> Inl TypeError
      | Some p \<Rightarrow>
          (case parseMessage J hmac p reply of
             (ws, Inl e) \<Rightarrow> Inl e
           | (ws, Inr None) \<Rightarrow> Inr (warn ws s)
           | (ws, Inr (Some replyMsg)) \<Rightarrow>
               if isKernelInfoReply replyMsg
               then Inr (emit (Emit_kernelInfo (content replyMsg)) (warn ws s))
               else Inr (warn ws s)))"

text \<open>
  \<open>start_3\<close>: the listener is started and the kernel info requested; when
  \<open>requestKernelInfo\<close> returns at once, \<open>start\<close> goes on to \<open>setState('idle')\<close>.
  \<open>start_4\<close>: the reply is there; \<open>start\<close> ends with \<open>setState('idle')\<close>.
\<close>

definition start_3 :: "Content JSON \<Rightarrow> Hmac \<Rightarrow> string \<Rightarrow> string \<Rightarrow> KernelManager \<Rightarrow> KernelManager" where
  "start_3 J hmac uuid now s =
     (case requestKernelInfo_send J hmac uuid now s of
        Some s' \<Rightarrow> s'
      | None \<Rightarrow> setState idle s)"

definition start_4 :: "Content JSON \<Rightarrow> Hmac \<Rightarrow> Buffer list \<Rightarrow> KernelManager \<Rightarrow> exn + KernelManager" where
  "start_4 J hmac reply s =
     (case requestKernelInfo_reply J hmac reply s of
        Inl e \<Rightarrow> Inl e
      | Inr s' \<Rightarrow> Inr (setState idle s'))"

section \<open>KernelManager: execute and interrupt\<close>

text \<open>
  \<open>execute_1\<close>: from the entry of \<open>execute\<close> to the \<open>send\<close>. It returns the message id
  and the address of the promise and outputs the call goes on with.
\<close>

definition execute_1 ::
  "Content JSON \<Rightarrow> Hmac \<Rightarrow> string \<Rightarrow> string \<Rightarrow> string \<Rightarrow> KernelManager
     \<Rightarrow> exn + (KernelManager \<times> string \<times> nat)"
where
  "execute_1 J hmac c uuid now s =
     (case (shellSocket s, protocol s) of
        (Some _, Some p) \<Rightarrow>
          (let msg = createExecuteRequest p uuid now c False;
               msgId = msg_id (header msg);
               frames = serializeMessage J hmac p msg;
               a = length (heap s);
               s1 = s\<lparr>heap := heap s @ [\<lparr>resolved = False, outputs = []\<rparr>],
                      pendingExecutions := (pendingExecutions s)(msgId \<mapsto> a)\<rparr>
           in Inr (emit (Send shell frames) s1, msgId, a))
      | _ \<Rightarrow> Inl (Error ''Kernel not started''))"

text \<open>\<open>execute_2\<close>: the shell reply is received and parsed; the parsed message is dropped.\<close>

definition execute_2 :: "Content JSON \<Rightarrow> Hmac \<Rightarrow> Buffer list \<Rightarrow> KernelManager \<Rightarrow> exn + KernelManager" where
  "execute_2 J hmac reply s =
     (if shellSocket s = None then Inl TypeError
      else case protocol s of
        None \<Rightarrow> Inl TypeError
      | Some p \<Rightarrow>
          (case parseMessage J hmac p reply of
             (ws, Inl e) \<Rightarrow> Inl e
           | (ws, Inr _) \<Rightarrow> Inr (warn ws s)))"

text \<open>
  \<open>execute_3\<close>: \<open>await promise\<close> and the return. \<open>None\<close>: the promise is not resolved
  and the call still waits.
\<close>

definition execute_3 :: "string \<Rightarrow> nat \<Rightarrow> KernelManager \<Rightarrow> (string \<times> KernelOutput list) option" where
  "execute_3 msgId a s =
     (if resolved (heap s ! a) then Some (msgId, outputs (heap s ! a)) else None)"

text \<open>\<open>interrupt\<close>; a failure of the system call \<open>process.kill\<close> is not modelled.\<close>

definition interrupt ::
  "Content JSON \<Rightarrow> Hmac \<Rightarrow> string \<Rightarrow> string \<Rightarrow> KernelManager \<Rightarrow> exn + KernelManager"
where
  "interrupt J hmac uuid now s =
     (case process s of
        None \<Rightarrow> Inr s
      | Some proc \<Rightarrow>
          (case pid proc of
             None \<Rightarrow> Inr s
           | Some n \<Rightarrow>
               if n = 0 then Inr s
               else
                 (let s1 = emit (Sigint n) s in
                  case (controlSocket s1, protocol s1) of
                    (Some _, Some p) \<Rightarrow>
                      Inr (emit (Send control (serializeMessage J hmac p (createInterruptRequest p uuid now))) s1)
                  | _ \<Rightarrow> Inr s1)))"

section \<open>Runs of the manager\<close>

text \<open>
  What can happen to a manager, one segment at a time: a segment of \<open>start\<close>, of
  \<open>execute\<close>, \<open>interrupt\<close>, \<open>shutdown\<close>, a handler of the child process, a turn of
  the iopub listener. A call that throws leaves the state as it found it. The events
  come in any order: the model does not keep which calls are under way nor whether the
  listener runs, so the runs of the program are among the runs of the model.
\<close>

datatype Event =
    Start_1 string ChildProcess
  | Start_2 ConnectionInfo string string string
  | Start_3 string string
  | Start_4 "Buffer list"
  | Process_exit
  | Process_error exn
  | Iopub "Buffer list"
  | Execute_1 string string string
  | Execute_2 "Buffer list"
  | Interrupt string string
  | Shutdown

definition orElse :: "exn + KernelManager \<Rightarrow> KernelManager \<Rightarrow> KernelManager" where
  "orElse r s = (case r of Inl e \<Rightarrow> s | Inr s' \<Rightarrow> s')"

fun step :: "Content JSON \<Rightarrow> Hmac \<Rightarrow> Event \<Rightarrow> KernelManager \<Rightarrow> KernelManager option" where
  "step J hmac (Start_1 file proc) s = Some (start_1 file proc s)"
| "step J hmac (Start_2 info uuid now1 now2) s = Some (orElse (start_2 info uuid now1 now2 s) s)"
| "step J hmac (Start_3 uuid now) s = Some (start_3 J hmac uuid now s)"
| "step J hmac (Start_4 reply) s = Some (orElse (start_4 J hmac reply s) s)"
| "step J hmac Process_exit s = Some (on_exit s)"
| "step J hmac (Process_error err) s = Some (on_error err s)"
| "step J hmac (Iopub frames) s = onIopubFrames J hmac frames s"
| "step J hmac (Execute_1 c uuid now) s =
     Some (case execute_1 J hmac c uuid now s of Inl e \<Rightarrow> s | Inr (s', k) \<Rightarrow> s')"
| "step J hmac (Execute_2 reply) s = Some (orElse (execute_2 J hmac reply s) s)"
| "step J hmac (Interrupt uuid now) s = Some (orElse (interrupt J hmac uuid now s) s)"
| "step J hmac Shutdown s = Some (shutdown s)"

fun run :: "Content JSON \<Rightarrow> Hmac \<Rightarrow> Event list \<Rightarrow> KernelManager \<Rightarrow> KernelManager option" where
  "run J hmac [] s = Some s"
| "run J hmac (e # es) s = (case step J hmac e s of None \<Rightarrow> None | Some s' \<Rightarrow> run J hmac es s')"

section \<open>Observations and the notions the properties are stated with\<close>

text \<open>The \<open>stateChange\<close> events of a trace, and its \<open>output\<close> events, in order.\<close>

fun stateChanges :: "Effect list \<Rightarrow> KernelState list" where
  "stateChanges [] = []"
| "stateChanges (Emit_stateChange st # es) = st # stateChanges es"
| "stateChanges (e # es) = stateChanges es"

fun outputsOf :: "Effect list \<Rightarrow> KernelOutput list" where
  "outputsOf [] = []"
| "outputsOf (Emit_output out p # es) = out # outputsOf es"
| "outputsOf (e # es) = outputsOf es"

text \<open>
  The edges of the state machine as the code has them: which state an event can change
  the state to. The state before the event plays no part.
\<close>

definition edge :: "Content JSON \<Rightarrow> Hmac \<Rightarrow> Event \<Rightarrow> KernelManager \<Rightarrow> KernelState \<Rightarrow> bool" where
  "edge J hmac e s st =
     (case e of
        Start_1 f p \<Rightarrow> st = starting
      | Start_3 u n \<Rightarrow> st = idle
      | Start_4 r \<Rightarrow> st = idle
      | Process_exit \<Rightarrow> st = dead
      | Process_error err \<Rightarrow> st = dead
      | Shutdown \<Rightarrow> st = dead
      | Iopub frames \<Rightarrow>
          (case protocol s of
             None \<Rightarrow> False
           | Some p \<Rightarrow>
               (case snd (parseMessage J hmac p frames) of
                  Inr (Some msg) \<Rightarrow>
                    isStatus msg \<and>
                    (content msg = Status \<lparr>execution_state = exec_busy\<rparr> \<and> st = busy
                     \<or> content msg = Status \<lparr>execution_state = exec_idle\<rparr> \<and> st = idle)
                | _ \<Rightarrow> False))
      | _ \<Rightarrow> False)"

text \<open>
  The trace and the state agree: no two consecutive \<open>stateChange\<close> events carry the
  same state, and the last one carries the current state.
\<close>

definition consistent :: "KernelManager \<Rightarrow> bool" where
  "consistent s =
     (distinct_adj (stateChanges (trace s))
      \<and> (stateChanges (trace s) = [] \<or> last (stateChanges (trace s)) = state s))"

text \<open>
  The addresses in \<open>pendingExecutions\<close> are addresses of the heap; an execution is
  abandoned when it is on the heap, not resolved, and no entry of the map holds it.
\<close>

definition wellFormed :: "KernelManager \<Rightarrow> bool" where
  "wellFormed s = (\<forall>i a. pendingExecutions s i = Some a \<longrightarrow> a < length (heap s))"

definition abandoned :: "nat \<Rightarrow> KernelManager \<Rightarrow> bool" where
  "abandoned a s =
     (a < length (heap s) \<and> \<not> resolved (heap s ! a) \<and> (\<forall>i. pendingExecutions s i \<noteq> Some a))"

text \<open>
  The order in which the representations of display data are looked at, and the first
  of them that the data hold with a string that is not empty.
\<close>

definition priority :: "string list" where
  "priority = [''image/png'', ''image/jpeg'', ''text/html'', ''application/json'', ''text/plain'']"

definition firstNonEmpty :: "(string \<times> string) list \<Rightarrow> string option" where
  "firstNonEmpty d = find (\<lambda>k. truthy (map_of d k)) priority"

section \<open>A platform and a session for the examples\<close>

text \<open>
  The examples run on a small JSON library: it writes a header as \<open>JSON.stringify\<close>
  does when no string needs an escape, and it knows the JSON text of the few other
  values the examples use. The digest is a stand-in.
\<close>

definition quoted :: "string \<Rightarrow> string" where
  \<open>quoted s = ''"'' @ s @ ''"''\<close>

definition example_stringify_header :: "JupyterHeader \<Rightarrow> string" where
  \<open>example_stringify_header h =
     ''{"msg_id":'' @ quoted (msg_id h) @ '',"msg_type":'' @ quoted (msg_type h)
       @ '',"username":'' @ quoted (username h) @ '',"session":'' @ quoted (session h)
       @ '',"date":'' @ quoted (date h) @ '',"version":'' @ quoted (version h) @ ''}''\<close>

definition kernel_header :: "string \<Rightarrow> string \<Rightarrow> JupyterHeader" where
  "kernel_header i t =
     \<lparr>msg_id = i, msg_type = t, username = ''kernel'', session = ''ks'',
      date = ''2024-01-01T00:00:00.000Z'', version = ''5.3''\<rparr>"

definition example_protocol :: JupyterProtocol where
  "example_protocol = new_JupyterProtocol ''s1'' ''secret''"

text \<open>The headers of the two requests the manager of the examples sends.\<close>

definition m0_header :: JupyterHeader where
  "m0_header = createHeader example_protocol ''m0'' ''2024-01-01T00:00:00.000Z'' ''kernel_info_request''"

definition m1_header :: JupyterHeader where
  "m1_header = createHeader example_protocol ''m1'' ''2024-01-01T00:00:01.000Z'' ''execute_request''"

definition example_headers :: "JupyterHeader list" where
  "example_headers =
     [kernel_header ''k0'' ''kernel_info_reply'', kernel_header ''k1'' ''status'',
      kernel_header ''k2'' ''execute_result'', kernel_header ''k3'' ''execute_reply'',
      kernel_header ''k4'' ''display_data'', kernel_header ''k5'' ''status'',
      m0_header, m1_header]"

definition example_kernel_info :: KernelInfoReplyContent where
  "example_kernel_info =
     \<lparr>protocol_version = ''5.3'', implementation = ''ipython'', implementation_version = ''8.0.0'',
      language_info =
        \<lparr>language_name = ''python'', language_version = ''3.11.0'', mimetype = ''text/x-python'',
         file_extension = ''.py''\<rparr>,
      banner = ''Python'', info_status = ()\<rparr>"

definition example_reply :: ExecuteReplyContent where
  "example_reply =
     \<lparr>reply_status = reply_ok, execution_count = 1, reply_user_expressions = None,
      payload = None, reply_ename = None, reply_evalue = None, reply_traceback = None\<rparr>"

text \<open>
  Display data with an image and a text; and display data whose image is the empty
  string.
\<close>

definition example_figure :: DisplayDataContent where
  "example_figure =
     \<lparr>data = [(''image/png'', ''iVBORw0KGgo=''), (''text/plain'', ''<Figure>'')],
      display_metadata = [], transient = None\<rparr>"

definition example_empty_image :: DisplayDataContent where
  "example_empty_image =
     \<lparr>data = [(''image/png'', []), (''text/plain'', ''hi'')],
      display_metadata = [], transient = None\<rparr>"

definition example_contents :: "(string \<times> Content) list" where
  \<open>example_contents =
     [(''{"execution_state":"busy"}'', Status \<lparr>execution_state = exec_busy\<rparr>),
      (''{"execution_state":"idle"}'', Status \<lparr>execution_state = exec_idle\<rparr>),
      (''{"data":{"image/png":"iVBORw0KGgo=","text/plain":"<Figure>"},"metadata":{}}'',
         DisplayData example_figure),
      (''{"data":{"image/png":"","text/plain":"hi"},"metadata":{}}'',
         DisplayData example_empty_image),
      (''{"status":"ok","execution_count":1}'', ExecuteReply example_reply),
      (''{"protocol_version":"5.3","implementation":"ipython","implementation_version":"8.0.0",''
         @ ''"language_info":{"name":"python","version":"3.11.0","mimetype":"text/x-python",''
         @ ''"file_extension":".py"},"banner":"Python","status":"ok"}'',
         KernelInfoReply example_kernel_info),
      (''{}'', Empty)]\<close>

definition example_JSON :: "Content JSON" where
  \<open>example_JSON =
     \<lparr>stringify_header = example_stringify_header,
      stringify_parent = (\<lambda>p. case p of None \<Rightarrow> ''{}'' | Some h \<Rightarrow> example_stringify_header h),
      stringify_metadata = (\<lambda>m. ''{}''),
      stringify_content =
        (\<lambda>c. case find (\<lambda>(t, v). v = c) example_contents of
               Some (t, v) \<Rightarrow> t | None \<Rightarrow> ''null''),
      parse_header = (\<lambda>t. find (\<lambda>h. example_stringify_header h = t) example_headers),
      parse_parent =
        (\<lambda>t. if t = ''{}'' then Some None
             else map_option Some (find (\<lambda>h. example_stringify_header h = t) example_headers)),
      parse_metadata = (\<lambda>t. if t = ''{}'' then Some [] else None),
      parse_content = map_of example_contents,
      pretty = map_of [(''{"a":1}'', ''{'' @ [CHR 0x0A] @ ''  "a": 1'' @ [CHR 0x0A] @ ''}'')]\<rparr>\<close>

definition example_hmac :: Hmac where
  "example_hmac k parts = ''hmac:'' @ k @ '':'' @ concat parts"

text \<open>What the kernel of the examples sends: a message signed with the key of the session.\<close>

definition kernel_frames :: "string \<Rightarrow> string \<Rightarrow> JupyterHeader option \<Rightarrow> Content \<Rightarrow> Buffer list" where
  "kernel_frames i t parent c =
     serializeMessage example_JSON example_hmac example_protocol
       \<lparr>header = kernel_header i t, parent_header = parent, metadata = [], content = c,
        buffers = None\<rparr>"

definition busy_frames :: "JupyterHeader \<Rightarrow> Buffer list" where
  "busy_frames parent =
     kernel_frames ''k1'' ''status'' (Some parent) (Status \<lparr>execution_state = exec_busy\<rparr>)"

definition idle_frames :: "JupyterHeader \<Rightarrow> Buffer list" where
  "idle_frames parent =
     kernel_frames ''k5'' ''status'' (Some parent) (Status \<lparr>execution_state = exec_idle\<rparr>)"

definition info_frames :: "Buffer list" where
  "info_frames =
     kernel_frames ''k0'' ''kernel_info_reply'' (Some m0_header) (KernelInfoReply example_kernel_info)"

definition reply_frames :: "Buffer list" where
  "reply_frames = kernel_frames ''k3'' ''execute_reply'' (Some m1_header) (ExecuteReply example_reply)"

definition figure_frames :: "Buffer list" where
  "figure_frames = kernel_frames ''k4'' ''display_data'' (Some m1_header) (DisplayData example_figure)"

definition empty_image_frames :: "Buffer list" where
  "empty_image_frames =
     kernel_frames ''k4'' ''display_data'' (Some m1_header) (DisplayData example_empty_image)"

definition example_info :: ConnectionInfo where
  "example_info =
     \<lparr>shell_port = 5001, iopub_port = 5002, stdin_port = 5003, control_port = 5004, hb_port = 5005,
      ip = ''127.0.0.1'', info_key = ''secret'', transport = ''tcp'',
      signature_scheme = ''hmac-sha256'', kernel_name = ''python3''\<rparr>"

text \<open>
  A session. \<open>example_start\<close>: \<open>start()\<close> has spawned the kernel, connected the sockets
  and sent its \<open>kernel_info_request\<close>. \<open>example_sent\<close>: the handshake is over and
  \<open>execute('1+1')\<close> has sent its request. \<open>example_execute\<close>: the shell reply to it, an
  \<open>execute_reply\<close> with \<open>execution_count\<close> 1, has come, and the call waits for its promise.
\<close>

definition example_start :: "Event list" where
  "example_start =
     [Start_1 ''/tmp/kernel-1.json'' \<lparr>pid = Some 4242\<rparr>,
      Start_2 example_info ''s1'' ''1'' ''2'',
      Start_3 ''m0'' ''2024-01-01T00:00:00.000Z'']"

definition example_sent :: "Event list" where
  "example_sent =
     example_start @ [Start_4 info_frames, Execute_1 ''1+1'' ''m1'' ''2024-01-01T00:00:01.000Z'']"

definition example_execute :: "Event list" where
  "example_execute = example_sent @ [Execute_2 reply_frames]"

section \<open>The codec: finding the delimiter\<close>

lemma findDelimiter_None: "findDelimiter i fs = None \<longleftrightarrow> delimiter \<notin> set fs"
  by (induction fs arbitrary: i) auto

lemma findDelimiter_prefix:
  "delimiter \<notin> set pre \<Longrightarrow> findDelimiter i (pre @ delimiter # post) = Some (i + length pre)"
  by (induction pre arbitrary: i) auto

lemma findDelimiter_Some:
  "findDelimiter i fs = Some k \<Longrightarrow>
     \<exists>pre post. fs = pre @ delimiter # post \<and> delimiter \<notin> set pre \<and> k = i + length pre"
proof (induction fs arbitrary: i)
  case Nil
  then show ?case by simp
next
  case (Cons f fs)
  show ?case
  proof (cases "f = delimiter")
    case True
    with Cons.prems have "k = i" by simp
    with True have "f # fs = [] @ delimiter # fs \<and> delimiter \<notin> set [] \<and> k = i + length ([]::Buffer list)"
      by simp
    then show ?thesis by blast
  next
    case False
    with Cons.prems have "findDelimiter (Suc i) fs = Some k" by simp
    from Cons.IH[OF this] obtain pre post where
      "fs = pre @ delimiter # post" "delimiter \<notin> set pre" "k = Suc i + length pre" by blast
    with False have "f # fs = (f # pre) @ delimiter # post \<and> delimiter \<notin> set (f # pre) \<and> k = i + length (f # pre)"
      by simp
    then show ?thesis by blast
  qed
qed

lemma parseMessage_no_delimiter:
  "delimiter \<notin> set frames \<Longrightarrow> parseMessage J hmac p frames = ([], Inr None)"
  by (simp add: parseMessage_def findDelimiter_None[THEN iffD2])

lemma parseMessage_short:
  "delimiter \<notin> set pre \<Longrightarrow> length post < 5 \<Longrightarrow>
     parseMessage J hmac p (pre @ delimiter # post) = ([], Inr None)"
  by (simp add: parseMessage_def findDelimiter_prefix)

lemma nth_after_prefix:
  "(pre @ d # a # b # c # e # f # rest) ! (length pre + 1) = a"
  "(pre @ d # a # b # c # e # f # rest) ! (length pre + 2) = b"
  "(pre @ d # a # b # c # e # f # rest) ! (length pre + 3) = c"
  "(pre @ d # a # b # c # e # f # rest) ! (length pre + 4) = e"
  "(pre @ d # a # b # c # e # f # rest) ! (length pre + 5) = f"
  "(pre @ d # a # b # c # e # f # rest) ! Suc (length pre) = a"
  "(pre @ d # a # b # c # e # f # rest) ! Suc (Suc (length pre)) = b"
  by (simp_all add: nth_append)

text \<open>
  What \<open>parseMessage\<close> does with a frame sequence that has its delimiter and five frames
  after it.
\<close>

lemma parseMessage_frames:
  assumes "delimiter \<notin> set pre"
  shows "parseMessage J hmac p (pre @ delimiter # sig # h # ph # md # c # bufs) =
     (case parse_header J h of
        None \<Rightarrow> ([], Inl SyntaxError)
      | Some hv \<Rightarrow>
     (case parse_parent J ph of
        None \<Rightarrow> ([], Inl SyntaxError)
      | Some phv \<Rightarrow>
     (case parse_metadata J md of
        None \<Rightarrow> ([], Inl SyntaxError)
      | Some mdv \<Rightarrow>
     (case parse_content J c of
        None \<Rightarrow> ([], Inl SyntaxError)
      | Some cv \<Rightarrow>
          (if key p \<noteq> [] \<and> sig \<noteq> [] \<and> sig \<noteq> sign hmac p [h, ph, md, c]
           then [''Message signature mismatch''] else [],
           Inr (Some \<lparr>header = hv, parent_header = phv, metadata = mdv, content = cv,
                       buffers = Some bufs\<rparr>))))))"
proof -
  have fd: "findDelimiter 0 (pre @ delimiter # sig # h # ph # md # c # bufs) = Some (length pre)"
    using findDelimiter_prefix[OF assms, of 0] by simp
  show ?thesis
    unfolding parseMessage_def fd
    by (simp add: nth_after_prefix Let_def split: option.split)
qed

lemma five_frames:
  "\<not> length post < 5 \<Longrightarrow> \<exists>a b c d e rest. post = a # b # c # d # e # rest"
  by (cases post; simp; rename_tac x1 l1; case_tac l1; simp; rename_tac x2 l2; case_tac l2; simp;
      rename_tac x3 l3; case_tac l3; simp; rename_tac x4 l4; case_tac l4; simp)

lemmas example_defs = kernel_frames_def serializeMessage_def example_JSON_def Let_def sign_def
  example_protocol_def new_JupyterProtocol_def delimiter_def example_contents_def
  example_headers_def kernel_header_def example_stringify_header_def quoted_def createHeader_def
  example_hmac_def example_reply_def example_kernel_info_def example_figure_def
  example_empty_image_def m0_header_def m1_header_def busy_frames_def idle_frames_def
  info_frames_def reply_frames_def figure_frames_def empty_image_frames_def example_info_def

section \<open>Properties of the codec\<close>

text \<open>
  C6. For every frame sequence, \<open>parseMessage\<close> returns \<open>null\<close>, without throwing, when
  the delimiter frame is absent or when fewer than five frames follow the (first)
  delimiter; and these are the only frame sequences for which it returns \<open>null\<close>.
\<close>

theorem parseMessage_null_iff_malformed:
  "snd (parseMessage J hmac p frames) = Inr None \<longleftrightarrow>
     (delimiter \<notin> set frames \<or>
      (\<exists>pre post. frames = pre @ delimiter # post \<and> delimiter \<notin> set pre \<and> length post < 5))"
proof
  assume "delimiter \<notin> set frames \<or>
      (\<exists>pre post. frames = pre @ delimiter # post \<and> delimiter \<notin> set pre \<and> length post < 5)"
  then show "snd (parseMessage J hmac p frames) = Inr None"
  proof
    assume "delimiter \<notin> set frames"
    then show ?thesis by (simp add: parseMessage_no_delimiter)
  next
    assume "\<exists>pre post. frames = pre @ delimiter # post \<and> delimiter \<notin> set pre \<and> length post < 5"
    then obtain pre post where "frames = pre @ delimiter # post" "delimiter \<notin> set pre" "length post < 5"
      by blast
    then show ?thesis by (simp add: parseMessage_short)
  qed
next
  assume res: "snd (parseMessage J hmac p frames) = Inr None"
  show "delimiter \<notin> set frames \<or>
      (\<exists>pre post. frames = pre @ delimiter # post \<and> delimiter \<notin> set pre \<and> length post < 5)"
  proof (cases "findDelimiter 0 frames")
    case None
    then show ?thesis by (simp add: findDelimiter_None)
  next
    case (Some i)
    from findDelimiter_Some[OF Some] obtain pre post where
      fr: "frames = pre @ delimiter # post" "delimiter \<notin> set pre" by auto
    have "length post < 5"
    proof (rule ccontr)
      assume "\<not> length post < 5"
      from five_frames[OF this] obtain sig h ph md c bufs where
        post: "post = sig # h # ph # md # c # bufs" by blast
      have "snd (parseMessage J hmac p (pre @ delimiter # sig # h # ph # md # c # bufs)) \<noteq> Inr None"
        unfolding parseMessage_frames[OF fr(2)]
        by (simp split: option.split)
      with res fr post show False by simp
    qed
    with fr show ?thesis by blast
  qed
qed

text \<open>
  The theorem at two frame sequences: one without a delimiter, and one with four frames
  after the delimiter.
\<close>

theorem parseMessage_null_examples:
  "snd (parseMessage example_JSON example_hmac example_protocol [''a'', ''b'']) = Inr None
   \<and> snd (parseMessage example_JSON example_hmac example_protocol
            [''id'', ''<IDS|MSG>'', ''sig'', ''{}'', ''{}'', ''{}'']) = Inr None"
proof -
  have "delimiter \<notin> set [''a'', ''b'']"
    by (simp add: delimiter_def)
  then have 1: "snd (parseMessage example_JSON example_hmac example_protocol [''a'', ''b'']) = Inr None"
    using parseMessage_null_iff_malformed[of example_JSON example_hmac example_protocol "[''a'', ''b'']"]
    by blast
  have "[''id'', ''<IDS|MSG>'', ''sig'', ''{}'', ''{}'', ''{}''] = [''id''] @ delimiter # [''sig'', ''{}'', ''{}'', ''{}'']
        \<and> delimiter \<notin> set [''id''] \<and> length [''sig'', ''{}'', ''{}'', ''{}''] < 5"
    by (simp add: delimiter_def)
  then have 2: "snd (parseMessage example_JSON example_hmac example_protocol
            [''id'', ''<IDS|MSG>'', ''sig'', ''{}'', ''{}'', ''{}'']) = Inr None"
    using parseMessage_null_iff_malformed[of example_JSON example_hmac example_protocol
        "[''id'', ''<IDS|MSG>'', ''sig'', ''{}'', ''{}'', ''{}'']"]
    by blast
  from 1 2 show ?thesis by simp
qed

text \<open>
  C9. \<open>serializeMessage\<close> returns six frames: the delimiter, the signature and the four
  JSON parts. The \<open>buffers\<close> of the message are not among them: whatever buffers a
  message carries, the frames are the same.
\<close>

theorem serializeMessage_six_frames:
  "serializeMessage J hmac p msg =
     [delimiter,
      sign hmac p [stringify_header J (header msg), stringify_parent J (parent_header msg),
                   stringify_metadata J (metadata msg), stringify_content J (content msg)],
      stringify_header J (header msg), stringify_parent J (parent_header msg),
      stringify_metadata J (metadata msg), stringify_content J (content msg)]
   \<and> serializeMessage J hmac p (msg\<lparr>buffers := bufs\<rparr>) = serializeMessage J hmac p msg"
  by (simp add: serializeMessage_def Let_def)

text \<open>
  C2. When \<open>JSON.parse\<close> gives back each of the four parts of a message from its
  \<open>JSON.stringify\<close> text (the parts are JSON-serializable), \<open>parseMessage\<close> of
  \<open>serializeMessage\<close> of the message returns, with no warning, a message with the same
  header, parent header, metadata and content (and an empty list of buffers).
\<close>

theorem parse_serialize_round_trip:
  assumes "parse_header J (stringify_header J (header msg)) = Some (header msg)"
    and "parse_parent J (stringify_parent J (parent_header msg)) = Some (parent_header msg)"
    and "parse_metadata J (stringify_metadata J (metadata msg)) = Some (metadata msg)"
    and "parse_content J (stringify_content J (content msg)) = Some (content msg)"
  shows "parseMessage J hmac p (serializeMessage J hmac p msg) =
     ([], Inr (Some \<lparr>header = header msg, parent_header = parent_header msg,
                      metadata = metadata msg, content = content msg, buffers = Some []\<rparr>))"
proof -
  have "delimiter \<notin> set ([]::Buffer list)" by simp
  from parseMessage_frames[OF this, of J hmac p] assms show ?thesis
    by (simp add: serializeMessage_def Let_def)
qed

theorem parse_serialize_round_trip_example:
  "parseMessage example_JSON example_hmac example_protocol
     (serializeMessage example_JSON example_hmac example_protocol
        \<lparr>header = kernel_header ''k1'' ''status'',
         parent_header = Some m1_header,
         metadata = [], content = Status \<lparr>execution_state = exec_busy\<rparr>, buffers = None\<rparr>) =
     ([], Inr (Some
        \<lparr>header = kernel_header ''k1'' ''status'',
         parent_header = Some m1_header,
         metadata = [], content = Status \<lparr>execution_state = exec_busy\<rparr>, buffers = Some []\<rparr>))"
  using parse_serialize_round_trip[of example_JSON
      "\<lparr>header = kernel_header ''k1'' ''status'',
        parent_header = Some m1_header,
        metadata = [], content = Status \<lparr>execution_state = exec_busy\<rparr>, buffers = None\<rparr>"
      example_hmac example_protocol]
  by (simp add: example_defs)

text \<open>
  C7, as the claim has it, fails: \<open>parseMessage\<close> calls \<open>JSON.parse\<close> on the four
  parts before it looks at the signature. A key is configured, the signature frame
  \<open>0bad\<close> is not empty and is not the digest of the four parts, and the header frame is
  not JSON: \<open>parseMessage\<close> throws a SyntaxError, writes no warning and returns no
  message.
\<close>

theorem signature_mismatch_unparsable_part_throws:
  "key example_protocol \<noteq> []
   \<and> ''0bad'' \<noteq> sign example_hmac example_protocol [''not json'', ''{}'', ''{}'', ''{}'']
   \<and> parseMessage example_JSON example_hmac example_protocol
         [''<IDS|MSG>'', ''0bad'', ''not json'', ''{}'', ''{}'', ''{}''] = ([], Inl SyntaxError)"
  by (simp add: example_defs parseMessage_def)

text \<open>
  C7, amended. A frame sequence has its delimiter, a signature frame and the four
  parts, and each of the four parts parses as JSON. When a key is configured and the
  signature is not empty and differs from the digest of the four parts, \<open>parseMessage\<close>
  writes the warning and returns the parsed message. And for every frame sequence the
  outcome is the one \<open>parseMessage\<close> has with no key at all: no signature makes it
  reject a message.
\<close>

theorem signature_mismatch_warns_and_returns:
  "(delimiter \<notin> set pre \<and> key p \<noteq> [] \<and> sig \<noteq> [] \<and> sig \<noteq> sign hmac p [h, ph, md, c]
      \<and> parse_header J h = Some hv \<and> parse_parent J ph = Some phv
      \<and> parse_metadata J md = Some mdv \<and> parse_content J c = Some cv
    \<longrightarrow> parseMessage J hmac p (pre @ delimiter # sig # h # ph # md # c # bufs) =
          ([''Message signature mismatch''],
           Inr (Some \<lparr>header = hv, parent_header = phv, metadata = mdv, content = cv,
                       buffers = Some bufs\<rparr>)))
   \<and> snd (parseMessage J hmac p frames) = snd (parseMessage J hmac (p\<lparr>key := []\<rparr>) frames)"
proof
  show "delimiter \<notin> set pre \<and> key p \<noteq> [] \<and> sig \<noteq> [] \<and> sig \<noteq> sign hmac p [h, ph, md, c]
      \<and> parse_header J h = Some hv \<and> parse_parent J ph = Some phv
      \<and> parse_metadata J md = Some mdv \<and> parse_content J c = Some cv
    \<longrightarrow> parseMessage J hmac p (pre @ delimiter # sig # h # ph # md # c # bufs) =
          ([''Message signature mismatch''],
           Inr (Some \<lparr>header = hv, parent_header = phv, metadata = mdv, content = cv,
                       buffers = Some bufs\<rparr>))"
    by (simp add: parseMessage_frames)
next
  show "snd (parseMessage J hmac p frames) = snd (parseMessage J hmac (p\<lparr>key := []\<rparr>) frames)"
    by (simp add: parseMessage_def Let_def split: option.split)
qed

theorem signature_mismatch_example:
  "parseMessage example_JSON example_hmac example_protocol
     [''<IDS|MSG>'', ''0bad'', example_stringify_header (kernel_header ''k1'' ''status''), ''{}'', ''{}'',
      ''{}'', ''raw''] =
     ([''Message signature mismatch''],
      Inr (Some \<lparr>header = kernel_header ''k1'' ''status'', parent_header = None, metadata = [],
                  content = Empty, buffers = Some [''raw'']\<rparr>))"
  using signature_mismatch_warns_and_returns[of "[]" example_protocol "''0bad''" example_hmac
      "example_stringify_header (kernel_header ''k1'' ''status'')" "''{}''" "''{}''" "''{}''"
      example_JSON "kernel_header ''k1'' ''status''" None "[]" Empty "[''raw'']" "[]"]
  by (simp add: example_defs)

section \<open>The state field\<close>

lemma stateChanges_append [simp]: "stateChanges (xs @ ys) = stateChanges xs @ stateChanges ys"
  by (induction xs rule: stateChanges.induct) auto

lemma outputsOf_append [simp]: "outputsOf (xs @ ys) = outputsOf xs @ outputsOf ys"
  by (induction xs rule: outputsOf.induct) auto

lemma stateChanges_Warn [simp]: "stateChanges (map Warn ws) = []"
  by (induction ws) auto

lemma state_emit [simp]: "state (emit e s) = state s"
  by (simp add: emit_def)

lemma state_warn [simp]: "state (warn ws s) = state s"
  by (simp add: warn_def)

lemma state_setState [simp]: "state (setState n s) = n"
  by (simp add: setState_def)

lemma state_cleanup [simp]: "state (cleanup s) = state s"
  by (simp add: cleanup_def Let_def split: option.split)

lemma state_shutdown [simp]: "state (shutdown s) = dead"
  by (simp add: shutdown_def Let_def)

lemma state_on_exit [simp]: "state (on_exit s) = dead"
  by (simp add: on_exit_def)

lemma state_on_error [simp]: "state (on_error err s) = dead"
  by (simp add: on_error_def)

lemma state_emitOutput [simp]: "state (emitOutput i out s) = state s"
  by (simp add: emitOutput_def Let_def split: option.split)

lemma state_completePending [simp]: "state (completePending i s) = state s"
  by (simp add: completePending_def split: option.split)

lemma state_listenerCatch [simp]: "state (listenerCatch e s) = state s"
  by (simp add: listenerCatch_def)

lemma state_start_1 [simp]: "state (start_1 f p s) = starting"
  by (simp add: start_1_def Let_def)

lemma state_start_2: "start_2 info u n1 n2 s = Inr s' \<Longrightarrow> state s' = state s"
  by (auto simp: start_2_def connectSockets_def Let_def)

lemma state_requestKernelInfo_send:
  "requestKernelInfo_send J hmac u n s = Some s' \<Longrightarrow> state s' = state s"
  by (auto simp: requestKernelInfo_send_def split: option.splits)

lemma state_requestKernelInfo_reply:
  "requestKernelInfo_reply J hmac r s = Inr s' \<Longrightarrow> state s' = state s"
  by (auto simp: requestKernelInfo_reply_def split: option.splits if_splits prod.splits sum.splits)

lemma state_start_4: "start_4 J hmac r s = Inr s' \<Longrightarrow> state s' = idle"
  by (auto simp: start_4_def split: sum.splits)

lemma state_execute_1: "execute_1 J hmac c u n s = Inr (s', k) \<Longrightarrow> state s' = state s"
  by (auto simp: execute_1_def Let_def split: option.splits)

lemma state_execute_2: "execute_2 J hmac r s = Inr s' \<Longrightarrow> state s' = state s"
  by (auto simp: execute_2_def split: option.splits if_splits prod.splits sum.splits)

lemma state_interrupt: "interrupt J hmac u n s = Inr s' \<Longrightarrow> state s' = state s"
  by (auto simp: interrupt_def Let_def split: option.splits if_splits)


lemma StatusContent_eq [simp]:
  "(c = \<lparr>execution_state = x\<rparr>) = (execution_state c = x)"
  by (cases c) auto

lemma state_handleIopubMessage:
  "handleIopubMessage J msg s = Some (Inr s') \<Longrightarrow>
     state s' =
       (if isStatus msg \<and> content msg = Status \<lparr>execution_state = exec_busy\<rparr> then busy
        else if isStatus msg \<and> content msg = Status \<lparr>execution_state = exec_idle\<rparr> then idle
        else state s)"
  by (auto simp: handleIopubMessage_def Let_def
      split: if_splits Content.splits sum.splits option.splits)

lemma state_onIopubFrames:
  assumes "onIopubFrames J hmac frames s = Some s'" "state s' \<noteq> state s"
  shows "\<exists>p ws msg. protocol s = Some p \<and> parseMessage J hmac p frames = (ws, Inr (Some msg))
           \<and> isStatus msg
           \<and> (content msg = Status \<lparr>execution_state = exec_busy\<rparr> \<and> state s' = busy
              \<or> content msg = Status \<lparr>execution_state = exec_idle\<rparr> \<and> state s' = idle)"
proof (cases "protocol s")
  case None
  with assms show ?thesis by (auto simp: onIopubFrames_def)
next
  case (Some p)
  obtain ws r where pm: "parseMessage J hmac p frames = (ws, r)" by (cases "parseMessage J hmac p frames")
  show ?thesis
  proof (cases r)
    case (Inl e)
    with assms Some pm show ?thesis by (auto simp: onIopubFrames_def)
  next
    case (Inr m)
    show ?thesis
    proof (cases m)
      case None
      with assms Some pm Inr show ?thesis by (auto simp: onIopubFrames_def)
    next
      case (Some msg)
      note msg = this
      show ?thesis
      proof (cases "handleIopubMessage J msg (warn ws s)")
        case None
        with assms \<open>protocol s = Some p\<close> pm Inr msg show ?thesis by (auto simp: onIopubFrames_def)
      next
        case (Some h)
        show ?thesis
        proof (cases h)
          case (Inl e)
          with assms \<open>protocol s = Some p\<close> pm Inr msg Some show ?thesis by (auto simp: onIopubFrames_def)
        next
          case (Inr s'')
          with assms \<open>protocol s = Some p\<close> pm \<open>r = Inr m\<close> msg Some have eq: "s'' = s'"
            by (simp add: onIopubFrames_def)
          from state_handleIopubMessage[of J msg "warn ws s" s'] Some Inr eq
          have "state s' =
             (if isStatus msg \<and> content msg = Status \<lparr>execution_state = exec_busy\<rparr> then busy
              else if isStatus msg \<and> content msg = Status \<lparr>execution_state = exec_idle\<rparr> then idle
              else state s)" by simp
          with assms(2) have "isStatus msg
           \<and> (content msg = Status \<lparr>execution_state = exec_busy\<rparr> \<and> state s' = busy
              \<or> content msg = Status \<lparr>execution_state = exec_idle\<rparr> \<and> state s' = idle)"
            by (auto split: if_splits)
          with \<open>protocol s = Some p\<close> pm \<open>r = Inr m\<close> msg show ?thesis by blast
        qed
      qed
    qed
  qed
qed

lemma busy_broadcast_sets_busy:
  "protocol s \<noteq> None \<Longrightarrow> isStatus msg \<Longrightarrow> content msg = Status \<lparr>execution_state = exec_busy\<rparr> \<Longrightarrow>
     handleIopubMessage J msg s = Some (Inr (setState busy s))"
  by (simp add: handleIopubMessage_def Let_def)

lemma state_orElse: "(\<And>s'. r = Inr s' \<Longrightarrow> state s' = state s) \<Longrightarrow> state (orElse r s) = state s"
  by (cases r) (auto simp: orElse_def)

lemma step_edge:
  assumes "step J hmac e s = Some s'" "state s' \<noteq> state s"
  shows "edge J hmac e s (state s')"
proof (cases e)
  case (Start_1 f p)
  with assms show ?thesis by (auto simp: edge_def)
next
  case (Start_2 info u n1 n2)
  with assms state_orElse[of "start_2 info u n1 n2 s" s] state_start_2 show ?thesis by auto
next
  case (Start_3 u n)
  with assms show ?thesis
    by (auto simp: edge_def start_3_def dest: state_requestKernelInfo_send split: option.splits)
next
  case (Start_4 r)
  with assms show ?thesis
    by (auto simp: edge_def orElse_def dest: state_start_4 split: sum.splits)
next
  case Process_exit
  with assms show ?thesis by (auto simp: edge_def)
next
  case (Process_error err)
  with assms show ?thesis by (auto simp: edge_def)
next
  case (Iopub frames)
  with assms have "onIopubFrames J hmac frames s = Some s'" by simp
  from state_onIopubFrames[OF this assms(2)] Iopub show ?thesis
    by (auto simp: edge_def)
next
  case (Execute_1 c u n)
  with assms show ?thesis by (auto dest: state_execute_1 split: sum.splits)
next
  case (Execute_2 r)
  with assms state_orElse[of "execute_2 J hmac r s" s] state_execute_2 show ?thesis by auto
next
  case (Interrupt u n)
  with assms state_orElse[of "interrupt J hmac u n s" s] state_interrupt show ?thesis by auto
next
  case Shutdown
  with assms show ?thesis by (auto simp: edge_def)
qed

section \<open>The trace and the state agree\<close>

lemma consistent_cong:
  "state s' = state s \<Longrightarrow> stateChanges (trace s') = stateChanges (trace s) \<Longrightarrow>
     consistent s' = consistent s"
  by (simp add: consistent_def)

lemma sc_emit [simp]: "stateChanges (trace (emit e s)) = stateChanges (trace s) @ stateChanges [e]"
  by (simp add: emit_def)

lemma sc_warn [simp]: "stateChanges (trace (warn ws s)) = stateChanges (trace s)"
  by (simp add: warn_def)

lemma sc_setState:
  "stateChanges (trace (setState n s)) = stateChanges (trace s) @ (if state s \<noteq> n then [n] else [])"
  by (simp add: setState_def)

lemma sc_cleanup [simp]: "stateChanges (trace (cleanup s)) = stateChanges (trace s)"
  by (simp add: cleanup_def Let_def split: option.split)

lemma sc_shutdown [simp]: "stateChanges (trace (shutdown s)) = stateChanges (trace (setState dead s))"
  by (simp add: shutdown_def Let_def)

lemma sc_emitOutput [simp]: "stateChanges (trace (emitOutput i out s)) = stateChanges (trace s)"
  by (simp add: emitOutput_def Let_def split: option.split)

lemma sc_completePending [simp]: "stateChanges (trace (completePending i s)) = stateChanges (trace s)"
  by (simp add: completePending_def split: option.split)

lemma sc_listenerCatch [simp]: "stateChanges (trace (listenerCatch e s)) = stateChanges (trace s)"
  by (simp add: listenerCatch_def)

lemma consistent_setState: "consistent s \<Longrightarrow> consistent (setState n s)"
  by (auto simp: consistent_def sc_setState distinct_adj_append_iff)

lemma consistent_new: "consistent (new_KernelManager path)"
  by (simp add: consistent_def new_KernelManager_def)

lemma consistent_cleanup [simp]: "consistent (cleanup s) = consistent s"
  by (rule consistent_cong) simp_all

lemma consistent_warn [simp]: "consistent (warn ws s) = consistent s"
  by (rule consistent_cong) simp_all

lemma consistent_emitOutput [simp]: "consistent (emitOutput i out s) = consistent s"
  by (rule consistent_cong) simp_all

lemma consistent_completePending [simp]: "consistent (completePending i s) = consistent s"
  by (rule consistent_cong) simp_all

lemma consistent_listenerCatch [simp]: "consistent (listenerCatch e s) = consistent s"
  by (rule consistent_cong) simp_all

lemma consistent_shutdown: "consistent s \<Longrightarrow> consistent (shutdown s)"
  using consistent_setState[of s dead] consistent_cong[of "shutdown s" "setState dead s"] by simp

lemma consistent_on_exit: "consistent s \<Longrightarrow> consistent (on_exit s)"
  by (simp add: on_exit_def consistent_setState)

lemma consistent_on_error: "consistent s \<Longrightarrow> consistent (on_error err s)"
  using consistent_setState[of s dead] consistent_cong[of "on_error err s" "setState dead s"]
  by (simp add: on_error_def)

lemma consistent_start_1: "consistent s \<Longrightarrow> consistent (start_1 f p s)"
proof -
  assume c: "consistent s"
  let ?s0 = "if process s \<noteq> None then shutdown s else s"
  have "consistent ?s0" using c by (simp add: consistent_shutdown)
  then have "consistent (setState starting ?s0)" by (rule consistent_setState)
  moreover have "consistent (start_1 f p s) = consistent (setState starting ?s0)"
    by (rule consistent_cong) (simp_all add: start_1_def Let_def)
  ultimately show ?thesis by simp
qed

lemma consistent_start_2: "start_2 info u n1 n2 s = Inr s' \<Longrightarrow> consistent s' = consistent s"
  by (auto simp: start_2_def connectSockets_def Let_def consistent_def)

lemma consistent_emit: "stateChanges [e] = [] \<Longrightarrow> consistent (emit e s) = consistent s"
  by (rule consistent_cong) simp_all

lemma consistent_start_3: "consistent s \<Longrightarrow> consistent (start_3 J hmac u n s)"
  by (auto simp: start_3_def requestKernelInfo_send_def consistent_setState consistent_emit
      split: option.splits)

lemma consistent_requestKernelInfo_reply:
  "requestKernelInfo_reply J hmac r s = Inr s' \<Longrightarrow> consistent s' = consistent s"
  by (auto simp: requestKernelInfo_reply_def consistent_emit
      split: option.splits if_splits prod.splits sum.splits)

lemma consistent_start_4: "start_4 J hmac r s = Inr s' \<Longrightarrow> consistent s \<Longrightarrow> consistent s'"
  by (auto simp: start_4_def consistent_setState consistent_requestKernelInfo_reply split: sum.splits)

lemma consistent_execute_1: "execute_1 J hmac c u n s = Inr (s', k) \<Longrightarrow> consistent s' = consistent s"
  by (auto simp: execute_1_def Let_def consistent_def split: option.splits)

lemma consistent_execute_2: "execute_2 J hmac r s = Inr s' \<Longrightarrow> consistent s' = consistent s"
  by (auto simp: execute_2_def split: option.splits if_splits prod.splits sum.splits)

lemma consistent_interrupt: "interrupt J hmac u n s = Inr s' \<Longrightarrow> consistent s' = consistent s"
  by (auto simp: interrupt_def Let_def consistent_emit split: option.splits if_splits)

text \<open>The states \<open>handleIopubMessage\<close> can return.\<close>

lemma handleIopubMessage_cases:
  assumes "handleIopubMessage J msg s = Some (Inr s')"
  shows "s' = setState busy s
       \<or> s' = completePending (map_option msg_id (parent_header msg)) (setState idle s)
       \<or> s' = s
       \<or> (\<exists>out. s' = emitOutput (map_option msg_id (parent_header msg)) out s)
       \<or> (\<exists>n. s' = s\<lparr>executionCount := n\<rparr>)"
  using assms
  by (simp add: handleIopubMessage_def Let_def
      split: if_splits Content.splits sum.splits option.splits) blast+

lemma consistent_executionCount [simp]: "consistent (s\<lparr>executionCount := n\<rparr>) = consistent s"
  by (rule consistent_cong) simp_all

lemma consistent_handleIopubMessage:
  assumes "handleIopubMessage J msg s = Some (Inr s')" "consistent s"
  shows "consistent s'"
  using handleIopubMessage_cases[OF assms(1)] assms(2)
  by (auto simp: consistent_setState)

lemma consistent_onIopubFrames:
  assumes "onIopubFrames J hmac frames s = Some s'" "consistent s"
  shows "consistent s'"
proof (cases "protocol s")
  case None
  with assms show ?thesis by (auto simp: onIopubFrames_def)
next
  case (Some p)
  obtain ws r where pm: "parseMessage J hmac p frames = (ws, r)" by (cases "parseMessage J hmac p frames")
  show ?thesis
  proof (cases r)
    case (Inl e)
    with assms Some pm show ?thesis by (auto simp: onIopubFrames_def)
  next
    case (Inr m)
    show ?thesis
    proof (cases m)
      case None
      with assms Some pm Inr show ?thesis by (auto simp: onIopubFrames_def)
    next
      case (Some msg)
      with assms \<open>protocol s = Some p\<close> pm Inr show ?thesis
        by (auto simp: onIopubFrames_def split: option.splits sum.splits
            dest: consistent_handleIopubMessage[of J msg "warn ws s"])
    qed
  qed
qed

lemma consistent_step:
  assumes "step J hmac e s = Some s'" "consistent s"
  shows "consistent s'"
proof (cases e)
  case (Start_1 f p)
  with assms show ?thesis by (auto simp: consistent_start_1)
next
  case (Start_2 info u n1 n2)
  with assms show ?thesis by (auto simp: orElse_def consistent_start_2 split: sum.splits)
next
  case (Start_3 u n)
  with assms show ?thesis by (auto simp: consistent_start_3)
next
  case (Start_4 r)
  with assms show ?thesis by (auto simp: orElse_def split: sum.splits dest: consistent_start_4)
next
  case Process_exit
  with assms show ?thesis by (auto simp: consistent_on_exit)
next
  case (Process_error err)
  with assms show ?thesis by (auto simp: consistent_on_error)
next
  case (Iopub frames)
  with assms show ?thesis using consistent_onIopubFrames by simp
next
  case (Execute_1 c u n)
  with assms show ?thesis by (auto simp: consistent_execute_1 split: sum.splits)
next
  case (Execute_2 r)
  with assms show ?thesis by (auto simp: orElse_def consistent_execute_2 split: sum.splits)
next
  case (Interrupt u n)
  with assms show ?thesis by (auto simp: orElse_def consistent_interrupt split: sum.splits)
next
  case Shutdown
  with assms show ?thesis by (auto simp: consistent_shutdown)
qed

lemma consistent_run: "run J hmac es s = Some s' \<Longrightarrow> consistent s \<Longrightarrow> consistent s'"
proof (induction es arbitrary: s)
  case Nil
  then show ?case by simp
next
  case (Cons e es)
  then show ?case by (auto split: option.splits dest: consistent_step)
qed


section \<open>What each operation does to the executions and to the counter\<close>

lemma emit_frame [simp]:
  "heap (emit e s) = heap s" "pendingExecutions (emit e s) = pendingExecutions s"
  "executionCount (emit e s) = executionCount s"
  by (simp_all add: emit_def)

lemma warn_frame [simp]:
  "heap (warn ws s) = heap s" "pendingExecutions (warn ws s) = pendingExecutions s"
  "executionCount (warn ws s) = executionCount s" "protocol (warn ws s) = protocol s"
  by (simp_all add: warn_def)

lemma setState_frame [simp]:
  "heap (setState n s) = heap s" "pendingExecutions (setState n s) = pendingExecutions s"
  "executionCount (setState n s) = executionCount s"
  by (simp_all add: setState_def)

lemma cleanup_frame [simp]:
  "heap (cleanup s) = heap s" "pendingExecutions (cleanup s) = Map.empty"
  "executionCount (cleanup s) = executionCount s"
  by (simp_all add: cleanup_def Let_def split: option.split)

lemma shutdown_frame [simp]:
  "heap (shutdown s) = heap s" "pendingExecutions (shutdown s) = Map.empty"
  "executionCount (shutdown s) = executionCount s"
  by (simp_all add: shutdown_def Let_def)

lemma on_exit_frame [simp]:
  "heap (on_exit s) = heap s" "pendingExecutions (on_exit s) = Map.empty"
  "executionCount (on_exit s) = executionCount s"
  by (simp_all add: on_exit_def)

lemma on_error_frame [simp]:
  "heap (on_error err s) = heap s" "pendingExecutions (on_error err s) = pendingExecutions s"
  "executionCount (on_error err s) = executionCount s"
  by (simp_all add: on_error_def)

lemma listenerCatch_frame [simp]:
  "heap (listenerCatch e s) = heap s" "pendingExecutions (listenerCatch e s) = pendingExecutions s"
  "executionCount (listenerCatch e s) = executionCount s"
  by (simp_all add: listenerCatch_def)

lemma resolved_update_outputs:
  "resolved ((xs[k := (xs ! k)\<lparr>outputs := os\<rparr>]) ! a) = resolved (xs ! a)"
  by (cases "k < length xs"; cases "k = a"; simp add: list_update_beyond)

lemma emitOutput_frame [simp]:
  "length (heap (emitOutput i out s)) = length (heap s)"
  "resolved (heap (emitOutput i out s) ! a) = resolved (heap s ! a)"
  "pendingExecutions (emitOutput i out s) = pendingExecutions s"
  "executionCount (emitOutput i out s) = executionCount s"
  by (simp_all add: emitOutput_def Let_def resolved_update_outputs split: option.split)

lemma completePending_frame [simp]:
  "length (heap (completePending i s)) = length (heap s)"
  "executionCount (completePending i s) = executionCount s"
  by (simp_all add: completePending_def split: option.split)

lemma start_1_frame [simp]:
  "heap (start_1 f p s) = heap s"
  "pendingExecutions (start_1 f p s) = (if process s \<noteq> None then Map.empty else pendingExecutions s)"
  "executionCount (start_1 f p s) = executionCount s"
  by (simp_all add: start_1_def Let_def)

lemma start_2_frame:
  "start_2 info u n1 n2 s = Inr s' \<Longrightarrow>
     heap s' = heap s \<and> pendingExecutions s' = pendingExecutions s \<and> executionCount s' = executionCount s"
  by (auto simp: start_2_def connectSockets_def Let_def)

lemma start_3_frame [simp]:
  "heap (start_3 J hmac u n s) = heap s"
  "pendingExecutions (start_3 J hmac u n s) = pendingExecutions s"
  "executionCount (start_3 J hmac u n s) = executionCount s"
  by (auto simp: start_3_def requestKernelInfo_send_def split: option.splits)

lemma requestKernelInfo_reply_frame:
  "requestKernelInfo_reply J hmac r s = Inr s' \<Longrightarrow>
     heap s' = heap s \<and> pendingExecutions s' = pendingExecutions s \<and> executionCount s' = executionCount s"
  by (auto simp: requestKernelInfo_reply_def split: option.splits if_splits prod.splits sum.splits)

lemma start_4_frame:
  "start_4 J hmac r s = Inr s' \<Longrightarrow>
     heap s' = heap s \<and> pendingExecutions s' = pendingExecutions s \<and> executionCount s' = executionCount s"
  by (auto simp: start_4_def split: sum.splits dest: requestKernelInfo_reply_frame)

lemma execute_1_frame:
  "execute_1 J hmac c u n s = Inr (s', i, a) \<Longrightarrow>
     heap s' = heap s @ [\<lparr>resolved = False, outputs = []\<rparr>]
     \<and> pendingExecutions s' = (pendingExecutions s)(u \<mapsto> length (heap s))
     \<and> executionCount s' = executionCount s \<and> i = u \<and> a = length (heap s)"
  by (auto simp: execute_1_def Let_def createExecuteRequest_def createMessage_def createHeader_def
      split: option.splits)

lemma execute_2_frame:
  "execute_2 J hmac r s = Inr s' \<Longrightarrow>
     heap s' = heap s \<and> pendingExecutions s' = pendingExecutions s \<and> executionCount s' = executionCount s"
  by (auto simp: execute_2_def split: option.splits if_splits prod.splits sum.splits)

lemma interrupt_frame:
  "interrupt J hmac u n s = Inr s' \<Longrightarrow>
     heap s' = heap s \<and> pendingExecutions s' = pendingExecutions s \<and> executionCount s' = executionCount s"
  by (auto simp: interrupt_def Let_def split: option.splits if_splits)

section \<open>Executions that nothing will resolve\<close>

lemma frame_cong:
  "heap s' = heap s \<Longrightarrow> pendingExecutions s' = pendingExecutions s \<Longrightarrow>
     wellFormed s' = wellFormed s \<and> abandoned a s' = abandoned a s"
  by (simp add: wellFormed_def abandoned_def)

lemma cleared_cong:
  "heap s' = heap s \<Longrightarrow> pendingExecutions s' = Map.empty \<Longrightarrow>
     wellFormed s' \<and> (abandoned a s \<longrightarrow> abandoned a s')"
  by (simp add: wellFormed_def abandoned_def)

lemma pendingFor_Some: "pendingFor p s = Some a \<Longrightarrow> \<exists>i. p = Some i \<and> pendingExecutions s i = Some a"
  by (auto simp: pendingFor_def split: option.splits if_splits)

lemma emitOutput_keeps:
  "wellFormed (emitOutput i out s) = wellFormed s"
  "abandoned a (emitOutput i out s) = abandoned a s"
  by (simp_all add: wellFormed_def abandoned_def)

lemma completePending_keeps:
  "wellFormed s \<Longrightarrow> wellFormed (completePending i s)"
  "abandoned a s \<Longrightarrow> abandoned a (completePending i s)"
proof -
  show "wellFormed s \<Longrightarrow> wellFormed (completePending i s)"
    by (auto simp: wellFormed_def completePending_def split: option.splits if_splits)
next
  assume ab: "abandoned a s"
  show "abandoned a (completePending i s)"
  proof (cases "pendingFor i s")
    case None
    with ab show ?thesis by (auto simp: completePending_def split: option.split)
  next
    case (Some k)
    from pendingFor_Some[OF Some] obtain j where j: "i = Some j" "pendingExecutions s j = Some k" by blast
    with ab have "k \<noteq> a" by (auto simp: abandoned_def)
    with ab j Some show ?thesis by (auto simp: abandoned_def completePending_def)
  qed
qed

lemma handleIopubMessage_keeps:
  assumes "handleIopubMessage J msg s = Some (Inr s')"
  shows "(wellFormed s \<longrightarrow> wellFormed s') \<and> (abandoned a s \<longrightarrow> abandoned a s')"
proof -
  have 1: "wellFormed (setState n s) = wellFormed s \<and> abandoned a (setState n s) = abandoned a s" for n
    by (rule frame_cong) simp_all
  have 2: "wellFormed (s\<lparr>executionCount := n\<rparr>) = wellFormed s
            \<and> abandoned a (s\<lparr>executionCount := n\<rparr>) = abandoned a s" for n
    by (rule frame_cong) simp_all
  from handleIopubMessage_cases[OF assms] show ?thesis
    using 1 2 completePending_keeps[where s = "setState idle s"] emitOutput_keeps[where s = s]
    by (elim disjE exE) simp_all
qed

lemma onIopubFrames_keeps:
  assumes "onIopubFrames J hmac frames s = Some s'"
  shows "(wellFormed s \<longrightarrow> wellFormed s') \<and> (abandoned a s \<longrightarrow> abandoned a s')"
proof -
  have k: "wellFormed (listenerCatch e (warn ws s)) = wellFormed s
         \<and> abandoned a (listenerCatch e (warn ws s)) = abandoned a s" for e ws
    by (rule frame_cong) simp_all
  have k': "wellFormed (listenerCatch e s) = wellFormed s
         \<and> abandoned a (listenerCatch e s) = abandoned a s" for e
    by (rule frame_cong) simp_all
  have w: "wellFormed (warn ws s) = wellFormed s \<and> abandoned a (warn ws s) = abandoned a s" for ws
    by (rule frame_cong) simp_all
  show ?thesis
  proof (cases "protocol s")
    case None
    with assms k' show ?thesis by (auto simp: onIopubFrames_def)
  next
    case (Some p)
    obtain ws r where pm: "parseMessage J hmac p frames = (ws, r)" by (cases "parseMessage J hmac p frames")
    show ?thesis
    proof (cases r)
      case (Inl e)
      with assms Some pm k show ?thesis by (auto simp: onIopubFrames_def)
    next
      case (Inr m)
      show ?thesis
      proof (cases m)
        case None
        with assms Some pm Inr w show ?thesis by (auto simp: onIopubFrames_def)
      next
        case (Some msg)
        show ?thesis
        proof (cases "handleIopubMessage J msg (warn ws s)")
          case None
          with assms \<open>protocol s = Some p\<close> pm Inr Some show ?thesis by (simp add: onIopubFrames_def)
        next
          case (Some h)
          note h = this
          show ?thesis
          proof (cases h)
            case (Inl e)
            with assms \<open>protocol s = Some p\<close> pm \<open>r = Inr m\<close> \<open>m = Some msg\<close> h k show ?thesis
              by (auto simp: onIopubFrames_def)
          next
            case (Inr s'')
            with assms \<open>protocol s = Some p\<close> pm \<open>r = Inr m\<close> \<open>m = Some msg\<close> h have "s'' = s'"
              by (simp add: onIopubFrames_def)
            with h Inr handleIopubMessage_keeps[of J msg "warn ws s" s' a] w show ?thesis by simp
          qed
        qed
      qed
    qed
  qed
qed

lemma step_keeps:
  assumes "step J hmac e s = Some s'"
  shows "(wellFormed s \<longrightarrow> wellFormed s') \<and> (abandoned a s \<longrightarrow> abandoned a s')"
proof (cases e)
  case (Start_1 f p)
  show ?thesis
  proof (cases "process s = None")
    case True
    have "wellFormed (start_1 f p s) = wellFormed s \<and> abandoned a (start_1 f p s) = abandoned a s"
      by (rule frame_cong) (simp_all add: True)
    with assms Start_1 show ?thesis by simp
  next
    case False
    have "wellFormed (start_1 f p s) \<and> (abandoned a s \<longrightarrow> abandoned a (start_1 f p s))"
      by (rule cleared_cong) (simp_all add: False)
    with assms Start_1 show ?thesis by simp
  qed
next
  case (Start_2 info u n1 n2)
  with assms show ?thesis
    by (auto simp: orElse_def split: sum.splits dest!: start_2_frame frame_cong[of _ s])
next
  case (Start_3 u n)
  have "wellFormed (start_3 J hmac u n s) = wellFormed s
        \<and> abandoned a (start_3 J hmac u n s) = abandoned a s"
    by (rule frame_cong) simp_all
  with assms Start_3 show ?thesis by simp
next
  case (Start_4 r)
  with assms show ?thesis
    by (auto simp: orElse_def split: sum.splits dest!: start_4_frame frame_cong[of _ s])
next
  case Process_exit
  have "wellFormed (on_exit s) \<and> (abandoned a s \<longrightarrow> abandoned a (on_exit s))"
    by (rule cleared_cong) simp_all
  with assms Process_exit show ?thesis by simp
next
  case (Process_error err)
  have "wellFormed (on_error err s) = wellFormed s \<and> abandoned a (on_error err s) = abandoned a s"
    by (rule frame_cong) simp_all
  with assms Process_error show ?thesis by simp
next
  case (Iopub frames)
  with assms onIopubFrames_keeps show ?thesis by simp
next
  case (Execute_1 c u n)
  show ?thesis
  proof (cases "execute_1 J hmac c u n s")
    case (Inl x)
    with assms Execute_1 show ?thesis by simp
  next
    case (Inr r)
    obtain s1 i k where r: "r = (s1, i, k)" by (cases r)
    from execute_1_frame[of J hmac c u n s s1 i k] Inr r
    have f: "heap s1 = heap s @ [\<lparr>resolved = False, outputs = []\<rparr>]"
      "pendingExecutions s1 = (pendingExecutions s)(u \<mapsto> length (heap s))" by simp_all
    have "s' = s1" using assms Execute_1 Inr r by simp
    with f show ?thesis
      by (auto simp: wellFormed_def abandoned_def nth_append less_Suc_eq)
  qed
next
  case (Execute_2 r)
  with assms show ?thesis
    by (auto simp: orElse_def split: sum.splits dest!: execute_2_frame frame_cong[of _ s])
next
  case (Interrupt u n)
  with assms show ?thesis
    by (auto simp: orElse_def split: sum.splits dest!: interrupt_frame frame_cong[of _ s])
next
  case Shutdown
  have "wellFormed (shutdown s) \<and> (abandoned a s \<longrightarrow> abandoned a (shutdown s))"
    by (rule cleared_cong) simp_all
  with assms Shutdown show ?thesis by simp
qed

lemma run_keeps:
  "run J hmac es s = Some s' \<Longrightarrow>
     (wellFormed s \<longrightarrow> wellFormed s') \<and> (abandoned a s \<longrightarrow> abandoned a s')"
proof (induction es arbitrary: s)
  case Nil
  then show ?case by simp
next
  case (Cons e es)
  from Cons.prems obtain s1 where 1: "step J hmac e s = Some s1" and 2: "run J hmac es s1 = Some s'"
    by (auto split: option.splits)
  from step_keeps[OF 1, of a] Cons.IH[OF 2] show ?case by blast
qed

lemma wellFormed_new: "wellFormed (new_KernelManager path)"
  by (simp add: wellFormed_def new_KernelManager_def)

lemma shutdown_abandons:
  "wellFormed s \<Longrightarrow> pendingExecutions s i = Some a \<Longrightarrow> \<not> resolved (heap s ! a) \<Longrightarrow>
     abandoned a (shutdown s)"
  by (auto simp: wellFormed_def abandoned_def)

section \<open>The display branch\<close>

lemma displayOutput_firstNonEmpty:
  "displayOutput J d =
     (case firstNonEmpty d of
        None \<Rightarrow> Inr None
      | Some k \<Rightarrow>
          if k = ''application/json'' then
            (case pretty J (the (map_of d k)) of
               None \<Rightarrow> Inl SyntaxError
             | Some t \<Rightarrow> Inr (Some (mkOutput display t (Some k))))
          else if k = ''text/plain'' then Inr (Some (mkOutput result (the (map_of d k)) None))
          else Inr (Some (mkOutput display (the (map_of d k)) (Some k))))"
  by (simp add: displayOutput_def firstNonEmpty_def priority_def)

lemma display_branch:
  assumes "protocol s \<noteq> None" "isDisplayData msg" "content msg = DisplayData c"
  shows "handleIopubMessage J msg s =
     (case displayOutput J (data c) of
        Inl e \<Rightarrow> Some (Inl e)
      | Inr None \<Rightarrow> Some (Inr s)
      | Inr (Some output) \<Rightarrow> Some (Inr (emitOutput (map_option msg_id (parent_header msg)) output s)))"
  using assms
  by (auto simp: handleIopubMessage_def Let_def isDisplayData_def isStatus_def isStream_def)

lemma trace_emitOutput: "trace (emitOutput p out s) = trace s @ [Emit_output out p]"
  by (simp add: emitOutput_def Let_def emit_def split: option.split)

lemma execute_3_abandoned: "abandoned a s \<Longrightarrow> execute_3 i a s = None"
  by (simp add: execute_3_def abandoned_def)

section \<open>The session of the examples\<close>

lemmas manager_defs = new_KernelManager_def start_1_def start_2_def start_3_def start_4_def
  connectSockets_def requestKernelInfo_send_def requestKernelInfo_reply_def setState_def emit_def
  orElse_def onIopubFrames_def warn_def handleIopubMessage_def isStatus_def isStream_def
  isDisplayData_def isKernelInfoReply_def parseMessage_def createKernelInfoRequest_def
  createExecuteRequest_def createMessage_def execute_1_def execute_2_def

lemmas session_defs = example_start_def example_sent_def example_execute_def manager_defs
  example_defs

lemma run_append:
  "run J hmac (es @ es') s = (case run J hmac es s of None \<Rightarrow> None | Some s1 \<Rightarrow> run J hmac es' s1)"
  by (induction es arbitrary: s) (auto split: option.splits)

lemma example_start_state:
  "map_option (\<lambda>s. (state s, protocol s))
     (run example_JSON example_hmac example_start (new_KernelManager ''python3''))
   = Some (starting, Some example_protocol)"
  by (simp add: session_defs)

lemma example_sent_state:
  "map_option (\<lambda>s. (executionCount s, shellSocket s \<noteq> None, protocol s))
     (run example_JSON example_hmac example_sent (new_KernelManager ''python3''))
   = Some (0, True, Some example_protocol)"
  by (simp add: session_defs)

lemma example_execute_state:
  "map_option (\<lambda>s. (pendingExecutions s ''m1'', map resolved (heap s), protocol s, outputsOf (trace s)))
     (run example_JSON example_hmac example_execute (new_KernelManager ''python3''))
   = Some (Some 0, [False], Some example_protocol, [])"
  by (simp add: session_defs)

lemma parse_busy_frames:
  "parseMessage example_JSON example_hmac example_protocol (busy_frames m0_header) =
     ([], Inr (Some \<lparr>header = kernel_header ''k1'' ''status'', parent_header = Some m0_header,
                      metadata = [], content = Status \<lparr>execution_state = exec_busy\<rparr>,
                      buffers = Some []\<rparr>))"
  by (simp add: example_defs parseMessage_def)

lemma parse_reply_frames:
  "parseMessage example_JSON example_hmac example_protocol reply_frames =
     ([], Inr (Some \<lparr>header = kernel_header ''k3'' ''execute_reply'', parent_header = Some m1_header,
                      metadata = [], content = ExecuteReply example_reply, buffers = Some []\<rparr>))"
  by (simp add: example_defs parseMessage_def)

lemma parse_figure_frames:
  "parseMessage example_JSON example_hmac example_protocol figure_frames =
     ([], Inr (Some \<lparr>header = kernel_header ''k4'' ''display_data'', parent_header = Some m1_header,
                      metadata = [], content = DisplayData example_figure, buffers = Some []\<rparr>))"
  by (simp add: example_defs parseMessage_def)

section \<open>Properties of the manager\<close>

text \<open>
  C10. \<open>setState\<close> emits one \<open>stateChange\<close> event, carrying the new state, when the
  new state differs from the current one, and nothing when it is the current one; the
  state is the new state afterwards. Hence, in every run of a new manager, no two
  consecutive \<open>stateChange\<close> events carry the same state.
\<close>

theorem stateChange_iff_state_differs:
  "trace (setState newState s) =
     (if state s \<noteq> newState then trace s @ [Emit_stateChange newState] else trace s)
   \<and> state (setState newState s) = newState
   \<and> (run J hmac es (new_KernelManager path) = Some s' \<longrightarrow> distinct_adj (stateChanges (trace s')))"
proof -
  have "run J hmac es (new_KernelManager path) = Some s' \<longrightarrow> consistent s'"
    using consistent_run[of J hmac es "new_KernelManager path" s'] consistent_new by blast
  then show ?thesis by (simp add: setState_def emit_def consistent_def)
qed

text \<open>
  A run in which the kernel broadcasts \<open>busy\<close> twice in a row: the second broadcast
  emits nothing.
\<close>

theorem stateChange_iff_state_differs_example:
  "map_option (\<lambda>s. stateChanges (trace s))
     (run example_JSON example_hmac
        (example_start @ [Iopub (busy_frames m0_header), Iopub (busy_frames m0_header)])
        (new_KernelManager ''python3''))
   = Some [starting, busy]
   \<and> distinct_adj [starting, busy]"
proof -
  have r: "map_option (\<lambda>s. stateChanges (trace s))
     (run example_JSON example_hmac
        (example_start @ [Iopub (busy_frames m0_header), Iopub (busy_frames m0_header)])
        (new_KernelManager ''python3''))
   = Some [starting, busy]"
    by (simp add: session_defs)
  then obtain s' where
    s': "run example_JSON example_hmac
        (example_start @ [Iopub (busy_frames m0_header), Iopub (busy_frames m0_header)])
        (new_KernelManager ''python3'') = Some s'" "stateChanges (trace s') = [starting, busy]"
    by auto
  from stateChange_iff_state_differs[of busy s' example_JSON example_hmac
      "example_start @ [Iopub (busy_frames m0_header), Iopub (busy_frames m0_header)]"
      "''python3''" s'] s'
  have "distinct_adj [starting, busy]" by simp
  with r show ?thesis by simp
qed

text \<open>
  C3, as the claim has it, fails: \<open>busy\<close> is entered from \<open>starting\<close>. While \<open>start()\<close>
  waits for the reply to its \<open>kernel_info_request\<close> the state is \<open>starting\<close> and the
  listener runs; the kernel broadcasts \<open>busy\<close> for that request, and the state is \<open>busy\<close>.
\<close>

theorem busy_entered_from_starting:
  "map_option state (run example_JSON example_hmac example_start (new_KernelManager ''python3''))
     = Some starting
   \<and> map_option state
        (run example_JSON example_hmac (example_start @ [Iopub (busy_frames m0_header)])
           (new_KernelManager ''python3''))
     = Some busy"
  by (simp add: session_defs)

text \<open>
  C3, amended. The state changes only by the edges of \<open>edge\<close>, each taken from whatever
  state the manager is in: to \<open>starting\<close> when \<open>start()\<close> begins, to \<open>idle\<close> when
  \<open>start()\<close> ends, to \<open>busy\<close> on a \<open>busy\<close> status broadcast, to \<open>idle\<close> on an \<open>idle\<close>
  status broadcast, to \<open>dead\<close> on the exit or an error of the process and on
  \<open>shutdown()\<close>. In particular \<open>busy\<close> is entered only by a \<open>busy\<close> status broadcast;
  and such a broadcast sets \<open>busy\<close> in every state of a manager that has its protocol.
\<close>

theorem state_changes_by_edge:
  "(step J hmac e s = Some s' \<and> state s' \<noteq> state s \<longrightarrow> edge J hmac e s (state s'))
   \<and> (step J hmac e s = Some s' \<and> state s' = busy \<and> state s \<noteq> busy \<longrightarrow>
        (\<exists>frames p msg. e = Iopub frames \<and> protocol s = Some p
           \<and> snd (parseMessage J hmac p frames) = Inr (Some msg)
           \<and> isStatus msg \<and> content msg = Status \<lparr>execution_state = exec_busy\<rparr>))
   \<and> (protocol s \<noteq> None \<and> isStatus msg \<and> content msg = Status \<lparr>execution_state = exec_busy\<rparr> \<longrightarrow>
        handleIopubMessage J msg s = Some (Inr (setState busy s)) \<and> state (setState busy s) = busy)"
proof -
  have 1: "step J hmac e s = Some s' \<and> state s' \<noteq> state s \<longrightarrow> edge J hmac e s (state s')"
    using step_edge by blast
  have 2: "step J hmac e s = Some s' \<and> state s' = busy \<and> state s \<noteq> busy \<longrightarrow>
        (\<exists>frames p msg. e = Iopub frames \<and> protocol s = Some p
           \<and> snd (parseMessage J hmac p frames) = Inr (Some msg)
           \<and> isStatus msg \<and> content msg = Status \<lparr>execution_state = exec_busy\<rparr>)"
  proof
    assume a: "step J hmac e s = Some s' \<and> state s' = busy \<and> state s \<noteq> busy"
    then have "edge J hmac e s busy" using step_edge[of J hmac e s s'] by auto
    then show "\<exists>frames p msg. e = Iopub frames \<and> protocol s = Some p
           \<and> snd (parseMessage J hmac p frames) = Inr (Some msg)
           \<and> isStatus msg \<and> content msg = Status \<lparr>execution_state = exec_busy\<rparr>"
      by (cases e) (auto simp: edge_def split: option.splits sum.splits)
  qed
  have 3: "protocol s \<noteq> None \<and> isStatus msg \<and> content msg = Status \<lparr>execution_state = exec_busy\<rparr> \<longrightarrow>
        handleIopubMessage J msg s = Some (Inr (setState busy s)) \<and> state (setState busy s) = busy"
    using busy_broadcast_sets_busy by simp
  from 1 2 3 show ?thesis by blast
qed

theorem state_changes_by_edge_example:
  "\<exists>s s'. run example_JSON example_hmac example_start (new_KernelManager ''python3'') = Some s
     \<and> state s = starting
     \<and> step example_JSON example_hmac (Iopub (busy_frames m0_header)) s = Some s'
     \<and> state s' = busy
     \<and> edge example_JSON example_hmac (Iopub (busy_frames m0_header)) s busy"
proof -
  from example_start_state obtain s where
    s: "run example_JSON example_hmac example_start (new_KernelManager ''python3'') = Some s"
       "state s = starting" "protocol s = Some example_protocol"
    by auto
  let ?msg = "\<lparr>header = kernel_header ''k1'' ''status'', parent_header = Some m0_header,
                metadata = [], content = Status \<lparr>execution_state = exec_busy\<rparr>,
                buffers = Some []\<rparr>"
  have m: "isStatus ?msg" by (simp add: isStatus_def kernel_header_def)
  from state_changes_by_edge[of example_JSON example_hmac "Iopub (busy_frames m0_header)" s
      "setState busy s" ?msg] s m
  have h: "handleIopubMessage example_JSON ?msg s = Some (Inr (setState busy s))" by simp
  have st: "step example_JSON example_hmac (Iopub (busy_frames m0_header)) s = Some (setState busy s)"
    using s(3) h by (simp add: onIopubFrames_def parse_busy_frames warn_def)
  with state_changes_by_edge[of example_JSON example_hmac "Iopub (busy_frames m0_header)" s
      "setState busy s" ?msg] s
  have "edge example_JSON example_hmac (Iopub (busy_frames m0_header)) s busy" by simp
  with s st show ?thesis by auto
qed

text \<open>
  C4, as the claim has it, fails: display data hold \<open>image/png\<close> with the empty string and
  \<open>text/plain\<close> with \<open>hi\<close>; the one output is the \<open>result\<close> output of \<open>text/plain\<close>, not a
  \<open>display\<close> output of \<open>image/png\<close>.
\<close>

theorem empty_image_is_skipped:
  "map_option (\<lambda>s. outputsOf (trace s))
     (run example_JSON example_hmac (example_execute @ [Iopub empty_image_frames])
        (new_KernelManager ''python3''))
   = Some [\<lparr>out_type = result, out_content = ''hi'', mimeType = None, out_executionCount = None\<rparr>]"
  by (simp add: session_defs displayOutput_def truthy_def mkOutput_def emitOutput_def pendingFor_def)

text \<open>
  C4, amended. For a display data message the handler looks at \<open>image/png\<close>,
  \<open>image/jpeg\<close>, \<open>text/html\<close>, \<open>application/json\<close>, \<open>text/plain\<close> in this order and takes
  the first that the data hold with a string that is not empty. When there is none it
  emits nothing. Otherwise it emits exactly one output: for \<open>text/plain\<close> a \<open>result\<close>
  output with the string and no mime type; for an image or HTML a \<open>display\<close> output with
  the string and the mime type; for \<open>application/json\<close> whose string parses, a \<open>display\<close>
  output with the pretty-printed JSON. In particular, when \<open>image/png\<close> is not empty the
  one output is the \<open>display\<close> output of \<open>image/png\<close>, whatever else the data hold.
\<close>

theorem display_emits_first_nonempty:
  assumes "protocol s \<noteq> None" "isDisplayData msg" "content msg = DisplayData c"
  shows
   "(firstNonEmpty (data c) = None \<longrightarrow> handleIopubMessage J msg s = Some (Inr s))
    \<and> (\<forall>k v. firstNonEmpty (data c) = Some k \<and> map_of (data c) k = Some v \<and> k \<noteq> ''application/json'' \<longrightarrow>
         handleIopubMessage J msg s =
           Some (Inr (emitOutput (map_option msg_id (parent_header msg))
                   (mkOutput (if k = ''text/plain'' then result else display) v
                      (if k = ''text/plain'' then None else Some k)) s)))
    \<and> (\<forall>v t. firstNonEmpty (data c) = Some ''application/json''
            \<and> map_of (data c) ''application/json'' = Some v \<and> pretty J v = Some t \<longrightarrow>
         handleIopubMessage J msg s =
           Some (Inr (emitOutput (map_option msg_id (parent_header msg))
                   (mkOutput display t (Some ''application/json'')) s)))
    \<and> (\<forall>p out. trace (emitOutput p out s) = trace s @ [Emit_output out p])
    \<and> (\<forall>png. map_of (data c) ''image/png'' = Some png \<and> png \<noteq> [] \<longrightarrow>
         handleIopubMessage J msg s =
           Some (Inr (emitOutput (map_option msg_id (parent_header msg))
                   (mkOutput display png (Some ''image/png'')) s)))"
proof -
  note h = display_branch[OF assms, of J]
  have 1: "firstNonEmpty (data c) = None \<longrightarrow> handleIopubMessage J msg s = Some (Inr s)"
    by (simp add: h displayOutput_firstNonEmpty)
  have 2: "\<forall>k v. firstNonEmpty (data c) = Some k \<and> map_of (data c) k = Some v \<and> k \<noteq> ''application/json'' \<longrightarrow>
         handleIopubMessage J msg s =
           Some (Inr (emitOutput (map_option msg_id (parent_header msg))
                   (mkOutput (if k = ''text/plain'' then result else display) v
                      (if k = ''text/plain'' then None else Some k)) s))"
    by (simp add: h displayOutput_firstNonEmpty)
  have 3: "\<forall>v t. firstNonEmpty (data c) = Some ''application/json''
            \<and> map_of (data c) ''application/json'' = Some v \<and> pretty J v = Some t \<longrightarrow>
         handleIopubMessage J msg s =
           Some (Inr (emitOutput (map_option msg_id (parent_header msg))
                   (mkOutput display t (Some ''application/json'')) s))"
    by (simp add: h displayOutput_firstNonEmpty)
  have 5: "\<forall>png. map_of (data c) ''image/png'' = Some png \<and> png \<noteq> [] \<longrightarrow>
         handleIopubMessage J msg s =
           Some (Inr (emitOutput (map_option msg_id (parent_header msg))
                   (mkOutput display png (Some ''image/png'')) s))"
    by (simp add: h displayOutput_def truthy_def)
  from 1 2 3 5 trace_emitOutput show ?thesis by blast
qed

text \<open>Display data with an image and a text: the one output is the image.\<close>

theorem display_emits_first_nonempty_example:
  "map_option (\<lambda>s. outputsOf (trace s))
     (run example_JSON example_hmac (example_execute @ [Iopub figure_frames])
        (new_KernelManager ''python3''))
   = Some [\<lparr>out_type = display, out_content = ''iVBORw0KGgo='', mimeType = Some ''image/png'',
            out_executionCount = None\<rparr>]"
proof -
  from example_execute_state obtain s where
    s: "run example_JSON example_hmac example_execute (new_KernelManager ''python3'') = Some s"
       "protocol s = Some example_protocol" "outputsOf (trace s) = []"
    by auto
  let ?msg = "\<lparr>header = kernel_header ''k4'' ''display_data'', parent_header = Some m1_header,
                metadata = [], content = DisplayData example_figure, buffers = Some []\<rparr>"
  have p: "protocol (warn [] s) \<noteq> None" using s(2) by simp
  have d: "isDisplayData ?msg" by (simp add: isDisplayData_def kernel_header_def)
  have c: "content ?msg = DisplayData example_figure" by simp
  from display_emits_first_nonempty[OF p d c, of example_JSON]
  have h: "handleIopubMessage example_JSON ?msg (warn [] s) =
             Some (Inr (emitOutput (Some ''m1'')
                     (mkOutput display ''iVBORw0KGgo='' (Some ''image/png'')) (warn [] s)))"
    and t: "trace (emitOutput (Some ''m1'')
                     (mkOutput display ''iVBORw0KGgo='' (Some ''image/png'')) (warn [] s))
            = trace (warn [] s) @ [Emit_output (mkOutput display ''iVBORw0KGgo='' (Some ''image/png'')) (Some ''m1'')]"
    by (simp_all add: example_figure_def m1_header_def createHeader_def)
  have "run example_JSON example_hmac [Iopub figure_frames] s =
          Some (emitOutput (Some ''m1'')
                  (mkOutput display ''iVBORw0KGgo='' (Some ''image/png'')) (warn [] s))"
    using s(2) h by (simp add: onIopubFrames_def parse_figure_frames)
  with s(1,3) t show ?thesis
    by (simp add: run_append warn_def mkOutput_def)
qed

text \<open>
  C5. The shell reply that \<open>execute\<close> receives is parsed and dropped: it leaves the
  execution counter as it was. The counter changes only in a turn of the iopub listener,
  and there an \<open>execute_reply\<close> with a count other than zero sets it.
\<close>

theorem shell_reply_leaves_executionCount:
  "(execute_2 J hmac reply s = Inr s' \<longrightarrow> executionCount s' = executionCount s)
   \<and> (step J hmac e s = Some s'' \<and> executionCount s'' \<noteq> executionCount s \<longrightarrow>
        (\<exists>frames. e = Iopub frames))
   \<and> (protocol s \<noteq> None \<and> isExecuteReply msg \<and> content msg = ExecuteReply c
        \<and> execution_count c \<noteq> 0 \<longrightarrow>
        handleIopubMessage J msg s = Some (Inr (s\<lparr>executionCount := execution_count c\<rparr>)))"
proof -
  have 1: "execute_2 J hmac reply s = Inr s' \<longrightarrow> executionCount s' = executionCount s"
    using execute_2_frame by blast
  have 2: "step J hmac e s = Some s'' \<and> executionCount s'' \<noteq> executionCount s \<longrightarrow>
        (\<exists>frames. e = Iopub frames)"
  proof (cases e)
    case (Start_2 info u n1 n2)
    then show ?thesis by (auto simp: orElse_def split: sum.splits dest: start_2_frame)
  next
    case (Start_4 r)
    then show ?thesis by (auto simp: orElse_def split: sum.splits dest: start_4_frame)
  next
    case (Execute_1 c u n)
    then show ?thesis by (auto split: sum.splits dest: execute_1_frame)
  next
    case (Execute_2 r)
    then show ?thesis by (auto simp: orElse_def split: sum.splits dest: execute_2_frame)
  next
    case (Interrupt u n)
    then show ?thesis by (auto simp: orElse_def split: sum.splits dest: interrupt_frame)
  qed auto
  have 3: "protocol s \<noteq> None \<and> isExecuteReply msg \<and> content msg = ExecuteReply c
        \<and> execution_count c \<noteq> 0 \<longrightarrow>
        handleIopubMessage J msg s = Some (Inr (s\<lparr>executionCount := execution_count c\<rparr>))"
    by (auto simp: handleIopubMessage_def Let_def isExecuteReply_def isStatus_def isStream_def
        isDisplayData_def isError_def)
  from 1 2 3 show ?thesis by blast
qed

text \<open>
  In the session of the examples the shell reply carries \<open>execution_count\<close> 1, and the
  counter is 0 after it.
\<close>

theorem shell_reply_leaves_executionCount_example:
  "execution_count example_reply = 1
   \<and> map_option executionCount
       (run example_JSON example_hmac example_execute (new_KernelManager ''python3''))
     = Some 0"
proof -
  from example_sent_state obtain s where
    s: "run example_JSON example_hmac example_sent (new_KernelManager ''python3'') = Some s"
       "executionCount s = 0" "shellSocket s \<noteq> None" "protocol s = Some example_protocol"
    by auto
  have e: "execute_2 example_JSON example_hmac reply_frames s = Inr (warn [] s)"
    using s(3,4) by (simp add: execute_2_def parse_reply_frames)
  with shell_reply_leaves_executionCount[of example_JSON example_hmac reply_frames s "warn [] s"]
  have "executionCount (warn [] s) = executionCount s" by simp
  with s(1,2) e show ?thesis
    by (simp add: example_execute_def run_append orElse_def example_reply_def)
qed

text \<open>
  C1. A manager has run from its creation to a state in which an execution is pending
  and its promise is not resolved. \<open>shutdown\<close> empties \<open>pendingExecutions\<close> and resolves
  nothing: the \<open>execute\<close> that waits for the promise still waits after \<open>shutdown\<close>, and
  still waits after whatever happens later.
\<close>

theorem shutdown_never_resolves_pending:
  assumes "run J hmac es (new_KernelManager path) = Some s"
    and "pendingExecutions s i = Some a" and "\<not> resolved (heap s ! a)"
    and "run J hmac es' (shutdown s) = Some s'"
  shows "pendingExecutions (shutdown s) = Map.empty \<and> execute_3 i a (shutdown s) = None
         \<and> execute_3 i a s' = None"
proof -
  from run_keeps[OF assms(1), of a] wellFormed_new have "wellFormed s" by blast
  then have 1: "abandoned a (shutdown s)" using assms(2,3) by (rule shutdown_abandons)
  with run_keeps[OF assms(4), of a] have 2: "abandoned a s'" by blast
  from 1 2 show ?thesis by (simp add: execute_3_abandoned)
qed

text \<open>
  In the session of the examples \<open>execute('1+1')\<close> waits for its promise;
  \<open>shutdown()\<close> is called, and then the kernel's \<open>idle\<close> broadcast for the request
  arrives: the call still waits.
\<close>

theorem shutdown_never_resolves_pending_example:
  "map_option (execute_3 ''m1'' 0)
     (run example_JSON example_hmac (example_execute @ [Shutdown, Iopub (idle_frames m1_header)])
        (new_KernelManager ''python3''))
   = Some None"
proof -
  from example_execute_state obtain s where
    s: "run example_JSON example_hmac example_execute (new_KernelManager ''python3'') = Some s"
       "pendingExecutions s ''m1'' = Some 0" "map resolved (heap s) = [False]"
    by auto
  from s(3) have r: "\<not> resolved (heap s ! 0)" by (cases "heap s") auto
  have "protocol (shutdown s) = None" by (simp add: shutdown_def cleanup_def Let_def split: option.split)
  then have l: "run example_JSON example_hmac [Iopub (idle_frames m1_header)] (shutdown s)
            = Some (listenerCatch TypeError (shutdown s))"
    by (simp add: onIopubFrames_def)
  from shutdown_never_resolves_pending[OF s(1) s(2) r l]
  have "execute_3 ''m1'' 0 (listenerCatch TypeError (shutdown s)) = None" by simp
  with s(1) l show ?thesis by (simp add: run_append)
qed

text \<open>
  C8, as the claim has it, fails for \<open>interrupt\<close>: on a manager that was never started
  it returns normally and does nothing.
\<close>

theorem interrupt_without_kernel_returns:
  "interrupt example_JSON example_hmac ''m2'' ''2024-01-01T00:00:02.000Z'' (new_KernelManager ''python3'')
     = Inr (new_KernelManager ''python3'')"
  by (simp add: interrupt_def new_KernelManager_def)

text \<open>
  C8, amended. \<open>execute\<close> on a manager without a shell socket or without a protocol
  throws \<open>Error('Kernel not started')\<close> before it does anything, and throws it in no
  other case. \<open>interrupt\<close> on a manager without a process (or whose process has no pid)
  does nothing and returns normally.
\<close>

theorem execute_fails_fast_interrupt_returns:
  "((shellSocket s = None \<or> protocol s = None) \<longrightarrow>
      execute_1 J hmac c u n s = Inl (Error ''Kernel not started''))
   \<and> (shellSocket s \<noteq> None \<and> protocol s \<noteq> None \<longrightarrow> (\<exists>r. execute_1 J hmac c u n s = Inr r))
   \<and> ((process s = None \<or> (\<exists>p. process s = Some p \<and> (pid p = None \<or> pid p = Some 0))) \<longrightarrow>
      interrupt J hmac u n s = Inr s)"
  by (auto simp: execute_1_def interrupt_def Let_def split: option.splits)

theorem execute_fails_fast_interrupt_returns_example:
  "execute_1 example_JSON example_hmac ''1+1'' ''m1'' ''2024-01-01T00:00:01.000Z''
      (shutdown (new_KernelManager ''python3''))
     = Inl (Error ''Kernel not started'')
   \<and> interrupt example_JSON example_hmac ''m2'' ''2024-01-01T00:00:02.000Z''
      (shutdown (new_KernelManager ''python3''))
     = Inr (shutdown (new_KernelManager ''python3''))"
  using execute_fails_fast_interrupt_returns[of "shutdown (new_KernelManager ''python3'')"
      example_JSON example_hmac "''1+1''" "''m1''" "''2024-01-01T00:00:01.000Z''"]
    execute_fails_fast_interrupt_returns[of "shutdown (new_KernelManager ''python3'')"
      example_JSON example_hmac "''1+1''" "''m2''" "''2024-01-01T00:00:02.000Z''"]
  by (simp add: shutdown_def cleanup_def setState_def emit_def new_KernelManager_def Let_def)

section \<open>Further properties of the manager\<close>

lemma resolved_nth_update:
  "resolved ((xs[k := (xs ! k)\<lparr>resolved := True\<rparr>]) ! a) = (if k = a \<and> a < length xs then True else resolved (xs ! a))"
  by (cases "k < length xs"; cases "k = a"; simp add: list_update_beyond)

lemma resolved_completePending:
  "a < length (heap s) \<Longrightarrow>
   resolved (heap (completePending i s) ! a) = (resolved (heap s ! a) \<or> pendingFor i s = Some a)"
  by (auto simp: completePending_def resolved_nth_update pendingFor_def split: option.splits)

lemma pendingFor_setState [simp]: "pendingFor i (setState n s) = pendingFor i s"
  by (simp add: pendingFor_def split: option.split)

lemma resolved_handleIopubMessage:
  assumes "handleIopubMessage J msg s = Some (Inr s')" "a < length (heap s)"
    "\<not> resolved (heap s ! a)" "resolved (heap s' ! a)"
  shows "isStatus msg \<and> content msg = Status \<lparr>execution_state = exec_idle\<rparr>
         \<and> pendingFor (map_option msg_id (parent_header msg)) s = Some a"
  using assms
  by (auto simp: handleIopubMessage_def Let_def resolved_completePending
      split: if_splits Content.splits sum.splits option.splits)


lemma pendingFor_warn [simp]: "pendingFor i (warn ws s) = pendingFor i s"
  by (simp add: pendingFor_def split: option.split)

lemma resolved_onIopubFrames:
  assumes "onIopubFrames J hmac frames s = Some s'" "a < length (heap s)"
    "\<not> resolved (heap s ! a)" "resolved (heap s' ! a)"
  shows "\<exists>p msg. protocol s = Some p \<and> snd (parseMessage J hmac p frames) = Inr (Some msg)
           \<and> isStatus msg \<and> content msg = Status \<lparr>execution_state = exec_idle\<rparr>
           \<and> pendingFor (map_option msg_id (parent_header msg)) s = Some a"
proof (cases "protocol s")
  case None
  with assms show ?thesis by (auto simp: onIopubFrames_def)
next
  case (Some p)
  obtain ws r where pm: "parseMessage J hmac p frames = (ws, r)" by (cases "parseMessage J hmac p frames")
  show ?thesis
  proof (cases r)
    case (Inl e)
    with assms Some pm show ?thesis by (auto simp: onIopubFrames_def)
  next
    case (Inr m)
    show ?thesis
    proof (cases m)
      case None
      with assms Some pm Inr show ?thesis by (auto simp: onIopubFrames_def)
    next
      case (Some msg)
      note msg = this
      show ?thesis
      proof (cases "handleIopubMessage J msg (warn ws s)")
        case None
        with assms \<open>protocol s = Some p\<close> pm Inr msg show ?thesis by (auto simp: onIopubFrames_def)
      next
        case (Some h)
        show ?thesis
        proof (cases h)
          case (Inl e)
          with assms \<open>protocol s = Some p\<close> pm Inr msg Some show ?thesis by (auto simp: onIopubFrames_def)
        next
          case (Inr s'')
          with assms \<open>protocol s = Some p\<close> pm \<open>r = Inr m\<close> msg Some have eq: "s'' = s'"
            by (simp add: onIopubFrames_def)
          from resolved_handleIopubMessage[of J msg "warn ws s" s' a] Some Inr eq assms(2,3,4)
          have "isStatus msg \<and> content msg = Status \<lparr>execution_state = exec_idle\<rparr>
                \<and> pendingFor (map_option msg_id (parent_header msg)) s = Some a" by simp
          with \<open>protocol s = Some p\<close> pm \<open>r = Inr m\<close> msg show ?thesis by simp
        qed
      qed
    qed
  qed
qed

text \<open>
  \<open>shutdown\<close> twice is \<open>shutdown\<close> once: the second call finds nothing to close and
  changes nothing. After \<open>shutdown\<close> the state is \<open>dead\<close>, no execution is pending and
  there is no connection info.
\<close>

theorem shutdown_twice:
  "shutdown (shutdown s) = shutdown s
   \<and> state (shutdown s) = dead \<and> pendingExecutions (shutdown s) = Map.empty
   \<and> connectionInfo (shutdown s) = None"
proof -
  have f: "shellSocket (shutdown s) = None" "iopubSocket (shutdown s) = None"
    "controlSocket (shutdown s) = None" "process (shutdown s) = None"
    "connectionFile (shutdown s) = None" "connectionInfo (shutdown s) = None"
    "protocol (shutdown s) = None"
    by (simp_all add: shutdown_def cleanup_def Let_def emit_def split: option.split)
  have "shutdown (shutdown s) = shutdown s"
    unfolding shutdown_def[of "shutdown s"] Let_def
    by (simp add: f setState_def cleanup_def)
  then show ?thesis by (simp add: f)
qed

text \<open>
  A promise is resolved only by a turn of the iopub listener for an \<open>idle\<close> status
  message whose parent id is the id the execution is pending under.
\<close>

theorem resolved_only_by_idle_broadcast:
  assumes "step J hmac e s = Some s'" "a < length (heap s)"
    "\<not> resolved (heap s ! a)" "resolved (heap s' ! a)"
  shows "\<exists>frames p msg. e = Iopub frames \<and> protocol s = Some p
           \<and> snd (parseMessage J hmac p frames) = Inr (Some msg)
           \<and> isStatus msg \<and> content msg = Status \<lparr>execution_state = exec_idle\<rparr>
           \<and> pendingFor (map_option msg_id (parent_header msg)) s = Some a"
proof (cases e)
  case (Start_1 f p)
  with assms show ?thesis by auto
next
  case (Start_2 info u n1 n2)
  with assms show ?thesis by (auto simp: orElse_def split: sum.splits dest: start_2_frame)
next
  case (Start_3 u n)
  with assms show ?thesis by auto
next
  case (Start_4 r)
  with assms show ?thesis by (auto simp: orElse_def split: sum.splits dest: start_4_frame)
next
  case Process_exit
  with assms show ?thesis by auto
next
  case (Process_error err)
  with assms show ?thesis by auto
next
  case (Iopub frames)
  with assms resolved_onIopubFrames[of J hmac frames s s' a] show ?thesis by simp
next
  case (Execute_1 c u n)
  with assms show ?thesis by (auto simp: nth_append split: sum.splits dest!: execute_1_frame)
next
  case (Execute_2 r)
  with assms show ?thesis by (auto simp: orElse_def split: sum.splits dest: execute_2_frame)
next
  case (Interrupt u n)
  with assms show ?thesis by (auto simp: orElse_def split: sum.splits dest: interrupt_frame)
next
  case Shutdown
  with assms show ?thesis by auto
qed

text \<open>
  In the session of the examples the kernel's \<open>idle\<close> broadcast for the request of
  \<open>execute('1+1')\<close> resolves the promise of that call.
\<close>

theorem resolved_only_by_idle_broadcast_example:
  "\<exists>s s'. run example_JSON example_hmac example_execute (new_KernelManager ''python3'') = Some s
     \<and> step example_JSON example_hmac (Iopub (idle_frames m1_header)) s = Some s'
     \<and> \<not> resolved (heap s ! 0) \<and> resolved (heap s' ! 0)
     \<and> (\<exists>frames p msg. Iopub (idle_frames m1_header) = Iopub frames \<and> protocol s = Some p
           \<and> snd (parseMessage example_JSON example_hmac p frames) = Inr (Some msg)
           \<and> isStatus msg \<and> content msg = Status \<lparr>execution_state = exec_idle\<rparr>
           \<and> pendingFor (map_option msg_id (parent_header msg)) s = Some 0)"
proof -
  from example_execute_state obtain s where
    s: "run example_JSON example_hmac example_execute (new_KernelManager ''python3'') = Some s"
       "map resolved (heap s) = [False]"
    by auto
  have "map_option (\<lambda>s. map resolved (heap s))
          (run example_JSON example_hmac (example_execute @ [Iopub (idle_frames m1_header)])
             (new_KernelManager ''python3'')) = Some [True]"
    by (simp add: session_defs completePending_def pendingFor_def)
  then obtain s' where
    s': "run example_JSON example_hmac (example_execute @ [Iopub (idle_frames m1_header)])
             (new_KernelManager ''python3'') = Some s'" "map resolved (heap s') = [True]"
    by auto
  from s(1) s'(1) have st: "step example_JSON example_hmac (Iopub (idle_frames m1_header)) s = Some s'"
    by (simp add: run_append split: option.splits)
  from s(2) have l: "0 < length (heap s)" and r: "\<not> resolved (heap s ! 0)"
    by (cases "heap s"; auto)+
  from s'(2) have r': "resolved (heap s' ! 0)" by (cases "heap s'") auto
  from resolved_only_by_idle_broadcast[OF st l r r'] s(1) st r r' show ?thesis by blast
qed

text \<open>
  Every output is published to the subscribers; it is also appended to the outputs of
  the execution pending under its parent id, when there is one.
\<close>

theorem emitOutput_appends_and_publishes:
  "trace (emitOutput p out s) = trace s @ [Emit_output out p]
   \<and> (pendingFor p s = Some a \<and> a < length (heap s) \<longrightarrow>
        outputs (heap (emitOutput p out s) ! a) = outputs (heap s ! a) @ [out])
   \<and> (pendingFor p s = None \<longrightarrow> heap (emitOutput p out s) = heap s)"
  by (simp add: emitOutput_def Let_def emit_def split: option.split)

text \<open>
  In the session of the examples an output for the request of \<open>execute('1+1')\<close> is
  both kept for the call and published.
\<close>

theorem emitOutput_appends_and_publishes_example:
  "\<exists>s. run example_JSON example_hmac example_execute (new_KernelManager ''python3'') = Some s
     \<and> pendingFor (Some ''m1'') s = Some 0
     \<and> outputs (heap (emitOutput (Some ''m1'') (mkOutput stdout ''2'' None) s) ! 0)
         = outputs (heap s ! 0) @ [mkOutput stdout ''2'' None]
     \<and> trace (emitOutput (Some ''m1'') (mkOutput stdout ''2'' None) s)
         = trace s @ [Emit_output (mkOutput stdout ''2'' None) (Some ''m1'')]"
proof -
  from example_execute_state obtain s where
    s: "run example_JSON example_hmac example_execute (new_KernelManager ''python3'') = Some s"
       "pendingExecutions s ''m1'' = Some 0" "map resolved (heap s) = [False]"
    by auto
  from s(2) have p: "pendingFor (Some ''m1'') s = Some 0" by (simp add: pendingFor_def)
  from s(3) have l: "0 < length (heap s)" by (cases "heap s") auto
  from emitOutput_appends_and_publishes[of "Some ''m1''" "mkOutput stdout ''2'' None" s 0] p l s(1)
  show ?thesis by blast
qed

end
